theory Spec2Isabelle
  imports Main "HOL-Library.AList"
begin

section \<open>Decoded JSON values\<close>

text \<open>
  \<^verbatim>\<open>handle_client\<close> hands \<^verbatim>\<open>json.loads(message)\<close> to the broker, so an envelope is
  any decoded JSON value: \<^verbatim>\<open>None\<close>, a \<^verbatim>\<open>bool\<close>, an unbounded \<^verbatim>\<open>int\<close>, a \<^verbatim>\<open>str\<close>,
  a \<^verbatim>\<open>list\<close> or a \<^verbatim>\<open>dict\<close> with string keys. A \<^verbatim>\<open>dict\<close> is an association list in
  insertion order whose keys are distinct. JSON numbers with a fraction or an exponent
  decode to floating point values, which are left out of the model.
\<close>

datatype json =
    JNull
  | JBool bool
  | JInt int
  | JStr string
  | JArr "json list"
  | JObj "(string \<times> json) list"

text \<open>The exceptions the modelled code can raise.\<close>

datatype exn = TypeError | ValueError | KeyError | AttributeError | UnicodeEncodeError

text \<open>\<^verbatim>\<open>data.get(key)\<close> on a dict: \<^verbatim>\<open>None\<close> when the key is missing.\<close>

definition dict_get :: "(string \<times> json) list \<Rightarrow> string \<Rightarrow> json" where
  "dict_get d k = (case map_of d k of None \<Rightarrow> JNull | Some v \<Rightarrow> v)"

text \<open>\<^verbatim>\<open>needle in hay\<close> on two strings is the substring test.\<close>

fun starts_with :: "string \<Rightarrow> string \<Rightarrow> bool" where
  "starts_with [] s = True"
| "starts_with (a # k) [] = False"
| "starts_with (a # k) (b # s) = (a = b \<and> starts_with k s)"

fun str_contains :: "string \<Rightarrow> string \<Rightarrow> bool" where
  "str_contains k [] = (k = [])"
| "str_contains k (b # s) = (starts_with k (b # s) \<or> str_contains k s)"

text \<open>
  \<^verbatim>\<open>key in data\<close> for a string \<^verbatim>\<open>key\<close>: key membership on a dict, element membership
  on a list, substring on a string, and \<^verbatim>\<open>TypeError\<close> on \<^verbatim>\<open>None\<close>, a bool or an int.
\<close>

fun py_contains :: "json \<Rightarrow> string \<Rightarrow> exn + bool" where
  "py_contains (JObj d) k = Inr (map_of d k \<noteq> None)"
| "py_contains (JArr xs) k = Inr (List.member xs (JStr k))"
| "py_contains (JStr s) k = Inr (str_contains k s)"
| "py_contains JNull k = Inl TypeError"
| "py_contains (JBool b) k = Inl TypeError"
| "py_contains (JInt i) k = Inl TypeError"

text \<open>
  \<^verbatim>\<open>data[key]\<close> for a string \<^verbatim>\<open>key\<close>: \<^verbatim>\<open>KeyError\<close> on a dict without the key,
  \<^verbatim>\<open>TypeError\<close> on everything that is not a dict.
\<close>

fun py_subscript :: "json \<Rightarrow> string \<Rightarrow> exn + json" where
  "py_subscript (JObj d) k = (case map_of d k of None \<Rightarrow> Inl KeyError | Some v \<Rightarrow> Inr v)"
| "py_subscript (JArr xs) k = Inl TypeError"
| "py_subscript (JStr s) k = Inl TypeError"
| "py_subscript JNull k = Inl TypeError"
| "py_subscript (JBool b) k = Inl TypeError"
| "py_subscript (JInt i) k = Inl TypeError"

section \<open>Validation of an envelope (\<^verbatim>\<open>validate_kom\<close>)\<close>

definition required_keys :: "string list" where
  "required_keys = [''type'', ''id'', ''topic'', ''mode'', ''timestamp'', ''payload'']"

text \<open>
  The loop over \<^verbatim>\<open>required_keys\<close>: \<open>Inr False\<close> is the early \<^verbatim>\<open>return False\<close>,
  \<open>Inr True\<close> is the loop running to its end.
\<close>

fun check_required :: "json \<Rightarrow> string list \<Rightarrow> exn + bool" where
  "check_required data [] = Inr True"
| "check_required data (key # keys) =
     (case py_contains data key of
        Inl e \<Rightarrow> Inl e
      | Inr present \<Rightarrow> if \<not> present then Inr False else check_required data keys)"

text \<open>
  \<^verbatim>\<open>datetime.datetime.fromisoformat\<close> belongs to the standard library; the set of
  strings it accepts is the parameter \<open>parses\<close>. It raises \<^verbatim>\<open>TypeError\<close> on an argument
  that is not a string and \<^verbatim>\<open>ValueError\<close> on a string it cannot parse.
\<close>

fun fromisoformat :: "(string \<Rightarrow> bool) \<Rightarrow> json \<Rightarrow> exn + unit" where
  "fromisoformat parses (JStr s) = (if parses s then Inr () else Inl ValueError)"
| "fromisoformat parses v = Inl TypeError"

text \<open>The body of the \<^verbatim>\<open>try\<close> block.\<close>

definition validate_try :: "(string \<Rightarrow> bool) \<Rightarrow> json \<Rightarrow> exn + bool" where
  "validate_try parses data =
     (case check_required data required_keys of
        Inl e \<Rightarrow> Inl e
      | Inr complete \<Rightarrow>
          if \<not> complete then Inr False
          else (case py_subscript data ''timestamp'' of
            Inl e \<Rightarrow> Inl e
          | Inr ts \<Rightarrow> (case fromisoformat parses ts of
              Inl e \<Rightarrow> Inl e
            | Inr u \<Rightarrow> (case py_subscript data ''type'' of
                Inl e \<Rightarrow> Inl e
              | Inr ty \<Rightarrow>
                  if \<not> List.member [JStr ''register'', JStr ''withdraw'', JStr ''message'', JStr ''status''] ty
                  then Inr False
                  else (case py_subscript data ''mode'' of
                    Inl e \<Rightarrow> Inl e
                  | Inr md \<Rightarrow>
                      if \<not> List.member [JStr ''producer'', JStr ''subscriber''] md
                         \<and> \<not> List.member [JStr ''status''] ty
                      then Inr False
                      else Inr True)))))"

text \<open>\<^verbatim>\<open>except Exception\<close> turns every exception of the body into \<^verbatim>\<open>False\<close>.\<close>

definition validate_kom :: "(string \<Rightarrow> bool) \<Rightarrow> json \<Rightarrow> bool" where
  "validate_kom parses data = (case validate_try parses data of Inl e \<Rightarrow> False | Inr ok \<Rightarrow> ok)"

section \<open>Topic names, connections and outbound messages\<close>

text \<open>
  A socket object is compared by identity; a connection is a handle.
\<close>

type_synonym conn = nat

text \<open>
  The topic of an envelope is used as a key of the dict \<^verbatim>\<open>self.topics\<close>. Only
  \<^verbatim>\<open>None\<close>, bools, ints and strings are hashable; \<^verbatim>\<open>topic in self.topics\<close> raises
  \<^verbatim>\<open>TypeError\<close> on a list or a dict.
\<close>

datatype scalar = SNone | SBool bool | SInt int | SStr string

fun as_hashable :: "json \<Rightarrow> scalar option" where
  "as_hashable JNull = Some SNone"
| "as_hashable (JBool b) = Some (SBool b)"
| "as_hashable (JInt i) = Some (SInt i)"
| "as_hashable (JStr s) = Some (SStr s)"
| "as_hashable (JArr xs) = None"
| "as_hashable (JObj d) = None"

fun json_of :: "scalar \<Rightarrow> json" where
  "json_of SNone = JNull"
| "json_of (SBool b) = JBool b"
| "json_of (SInt i) = JInt i"
| "json_of (SStr s) = JStr s"

text \<open>
  Dict keys are equal when Python's \<^verbatim>\<open>==\<close> says so: \<^verbatim>\<open>True == 1\<close> and
  \<^verbatim>\<open>False == 0\<close>. \<open>py_key\<close> picks one representative of each class of equal keys.
\<close>

fun py_key :: "scalar \<Rightarrow> scalar" where
  "py_key (SBool b) = SInt (if b then 1 else 0)"
| "py_key k = k"

text \<open>\<^verbatim>\<open>str(x)\<close>, as an f-string formats \<^verbatim>\<open>{topic}\<close>.\<close>

definition digit_char :: "nat \<Rightarrow> char" where
  "digit_char n = char_of (48 + n)"

function nat_digits :: "nat \<Rightarrow> string" where
  "nat_digits n = (if n < 10 then [digit_char n] else nat_digits (n div 10) @ [digit_char (n mod 10)])"
  by pat_completeness auto
termination
  by (relation "measure id") auto

definition str_int :: "int \<Rightarrow> string" where
  "str_int i = (if i < 0 then CHR ''-'' # nat_digits (nat (- i)) else nat_digits (nat i))"

fun py_str :: "scalar \<Rightarrow> string" where
  "py_str SNone = ''None''"
| "py_str (SBool b) = (if b then ''True'' else ''False'')"
| "py_str (SInt i) = str_int i"
| "py_str (SStr s) = s"

text \<open>
  An item of the outbound queue \<^verbatim>\<open>kkw\<close> is a pair of the target socket and a string:
  \<open>Text\<close> is a plain reply, \<open>Json v\<close> is the string \<^verbatim>\<open>json.dumps(v)\<close>.
\<close>

datatype message = Text string | Json json

text \<open>
  The value of a topic in \<^verbatim>\<open>self.topics\<close>, together with the key object the dict
  keeps for it (\<open>name\<close>), which is what iterating over the dict yields.
\<close>

record topic_info =
  name :: scalar
  producer :: conn
  producer_id :: json
  subscribers :: "conn list"

text \<open>
  The part of the \<^verbatim>\<open>Server\<close> object the broker works on: the dict \<^verbatim>\<open>topics\<close> in
  insertion order, keyed by \<open>py_key\<close> of the topic, and the queue \<^verbatim>\<open>kkw\<close>.
\<close>

record server =
  topics :: "(scalar \<times> topic_info) list"
  kkw :: "(conn \<times> message) list"

definition kkw_put :: "conn \<Rightarrow> message \<Rightarrow> server \<Rightarrow> server" where
  "kkw_put c m s = s\<lparr>kkw := kkw s @ [(c, m)]\<rparr>"

section \<open>The registry operations of \<^verbatim>\<open>process_message\<close>\<close>

text \<open>
  Each operation is the body of one \<^verbatim>\<open>with self.lock\<close> block. An exception is raised
  before anything is written, so \<open>Inl\<close> leaves the server as it was.
\<close>

definition apostrophe :: string where
  "apostrophe = [CHR 0x27]"

definition msg_already_producer :: "scalar \<Rightarrow> message" where
  "msg_already_producer t = Text (''You already are the producer of topic '' @ py_str t @ ''.'')"

definition msg_name_taken :: "scalar \<Rightarrow> message" where
  "msg_name_taken t = Text (''Topic '' @ py_str t @ '' already exists.'')"

definition msg_created :: "scalar \<Rightarrow> message" where
  "msg_created t = Text (''New topic registered: '' @ py_str t)"

definition msg_already_subscribed :: "scalar \<Rightarrow> message" where
  "msg_already_subscribed t = Text (''You already are a subscriber of topic '' @ py_str t @ ''.'')"

definition msg_subscribed :: "scalar \<Rightarrow> message" where
  "msg_subscribed t = Text (''Subscribed to topic: '' @ py_str t)"

definition msg_no_such_topic :: "scalar \<Rightarrow> message" where
  "msg_no_such_topic t = Text (''Topic '' @ py_str t @ '' doesn'' @ apostrophe @ ''t exist.'')"

definition msg_subscription_withdrawn :: "scalar \<Rightarrow> message" where
  "msg_subscription_withdrawn t = Text (''Subscription of topic '' @ py_str t @ '' has been withdrawn.'')"

definition msg_not_subscriber :: "scalar \<Rightarrow> message" where
  "msg_not_subscriber t = Text (''You are not a subscriber of topic '' @ py_str t @ ''.'')"

definition msg_topic_withdrawn :: "scalar \<Rightarrow> message" where
  "msg_topic_withdrawn t = Text (''Topic '' @ py_str t @ '' has been withdrawn.'')"

definition msg_not_producer :: "scalar \<Rightarrow> message" where
  "msg_not_producer t = Text (''You are not a producer of topic '' @ py_str t @ ''.'')"

definition msg_unknown :: message where
  "msg_unknown = Text ''Unknown message type.''"

text \<open>Lines 214 to 222: \<^verbatim>\<open>register\<close> with mode \<^verbatim>\<open>producer\<close>.\<close>

definition register_producer :: "json \<Rightarrow> json \<Rightarrow> conn \<Rightarrow> server \<Rightarrow> exn + server" where
  "register_producer topic client_id client_socket s =
     (case as_hashable topic of
        None \<Rightarrow> Inl TypeError
      | Some t \<Rightarrow>
          (case map_of (topics s) (py_key t) of
             Some info \<Rightarrow>
               if producer info = client_socket
               then Inr (kkw_put client_socket (msg_already_producer t) s)
               else Inr (kkw_put client_socket (msg_name_taken t) s)
           | None \<Rightarrow>
               Inr (kkw_put client_socket (msg_created t)
                 (s\<lparr>topics := AList.update (py_key t)
                    \<lparr>name = t, producer = client_socket, producer_id = client_id,
                     subscribers = []\<rparr> (topics s)\<rparr>))))"

text \<open>Lines 225 to 233: \<^verbatim>\<open>register\<close> with mode \<^verbatim>\<open>subscriber\<close>.\<close>

definition register_subscriber :: "json \<Rightarrow> conn \<Rightarrow> server \<Rightarrow> exn + server" where
  "register_subscriber topic client_socket s =
     (case as_hashable topic of
        None \<Rightarrow> Inl TypeError
      | Some t \<Rightarrow>
          (case map_of (topics s) (py_key t) of
             Some info \<Rightarrow>
               if List.member (subscribers info) client_socket
               then Inr (kkw_put client_socket (msg_already_subscribed t) s)
               else Inr (kkw_put client_socket (msg_subscribed t)
                 (s\<lparr>topics := AList.map_entry (py_key t)
                    (\<lambda>i. i\<lparr>subscribers := subscribers i @ [client_socket]\<rparr>) (topics s)\<rparr>))
           | None \<Rightarrow> Inr (kkw_put client_socket (msg_no_such_topic t) s)))"

text \<open>
  Lines 236 to 244: \<^verbatim>\<open>withdraw\<close> with mode \<^verbatim>\<open>subscriber\<close>. \<^verbatim>\<open>list.remove\<close> takes
  the first occurrence out.
\<close>

definition withdraw_subscriber :: "json \<Rightarrow> conn \<Rightarrow> server \<Rightarrow> exn + server" where
  "withdraw_subscriber topic client_socket s =
     (case as_hashable topic of
        None \<Rightarrow> Inl TypeError
      | Some t \<Rightarrow>
          (case map_of (topics s) (py_key t) of
             Some info \<Rightarrow>
               if List.member (subscribers info) client_socket
               then Inr (kkw_put client_socket (msg_subscription_withdrawn t)
                 (s\<lparr>topics := AList.map_entry (py_key t)
                    (\<lambda>i. i\<lparr>subscribers := remove1 client_socket (subscribers i)\<rparr>) (topics s)\<rparr>))
               else Inr (kkw_put client_socket (msg_not_subscriber t) s)
           | None \<Rightarrow> Inr (kkw_put client_socket (msg_no_such_topic t) s)))"

text \<open>Lines 247 to 255: \<^verbatim>\<open>withdraw\<close> with mode \<^verbatim>\<open>producer\<close>.\<close>

definition withdraw_producer :: "json \<Rightarrow> conn \<Rightarrow> server \<Rightarrow> exn + server" where
  "withdraw_producer topic client_socket s =
     (case as_hashable topic of
        None \<Rightarrow> Inl TypeError
      | Some t \<Rightarrow>
          (case map_of (topics s) (py_key t) of
             Some info \<Rightarrow>
               if producer info = client_socket
               then Inr (kkw_put client_socket (msg_topic_withdrawn t)
                 (s\<lparr>topics := AList.delete (py_key t) (topics s)\<rparr>))
               else Inr (kkw_put client_socket (msg_not_producer t) s)
           | None \<Rightarrow> Inr (kkw_put client_socket (msg_no_such_topic t) s)))"

text \<open>
  Lines 258 to 271: \<^verbatim>\<open>message\<close>, whatever the mode. The loop puts one item per
  subscriber, in the order of the subscriber list.
\<close>

definition publish :: "json \<Rightarrow> json \<Rightarrow> conn \<Rightarrow> server \<Rightarrow> exn + server" where
  "publish topic payload client_socket s =
     (case as_hashable topic of
        None \<Rightarrow> Inl TypeError
      | Some t \<Rightarrow>
          (case map_of (topics s) (py_key t) of
             Some info \<Rightarrow>
               if producer info = client_socket
               then Inr (fold (\<lambda>sub. kkw_put sub
                            (Json (JObj [(''topic'', topic), (''payload'', payload)])))
                          (subscribers info) s)
               else Inr (kkw_put client_socket (msg_not_producer t) s)
           | None \<Rightarrow> Inr (kkw_put client_socket (msg_no_such_topic t) s)))"

text \<open>
  Lines 274 to 277: \<^verbatim>\<open>status\<close>. \<^verbatim>\<open>data["payload"] = topics_status\<close> replaces the
  payload of the envelope, which is then sent back whole.
\<close>

definition topics_status :: "server \<Rightarrow> json list" where
  "topics_status s =
     map (\<lambda>(k, info). JObj [(''topic'', json_of (name info)), (''id'', producer_id info)])
       (topics s)"

definition snapshot_status :: "(string \<times> json) list \<Rightarrow> conn \<Rightarrow> server \<Rightarrow> server" where
  "snapshot_status data client_socket s =
     kkw_put client_socket
       (Json (JObj (AList.update ''payload'' (JArr (topics_status s)) data))) s"

text \<open>
  \<^verbatim>\<open>process_message\<close>: \<^verbatim>\<open>data.get\<close> exists on a dict only, so any other decoded value
  raises \<^verbatim>\<open>AttributeError\<close>.
\<close>

fun process_message :: "json \<Rightarrow> conn \<Rightarrow> server \<Rightarrow> exn + server" where
  "process_message (JObj data) client_socket s =
     (let message_type = dict_get data ''type'';
          topic = dict_get data ''topic'';
          client_id = dict_get data ''id''
      in if message_type = JStr ''register'' \<and> dict_get data ''mode'' = JStr ''producer''
         then register_producer topic client_id client_socket s
         else if message_type = JStr ''register'' \<and> dict_get data ''mode'' = JStr ''subscriber''
         then register_subscriber topic client_socket s
         else if message_type = JStr ''withdraw'' \<and> dict_get data ''mode'' = JStr ''subscriber''
         then withdraw_subscriber topic client_socket s
         else if message_type = JStr ''withdraw'' \<and> dict_get data ''mode'' = JStr ''producer''
         then withdraw_producer topic client_socket s
         else if message_type = JStr ''message''
         then publish topic (dict_get data ''payload'') client_socket s
         else if message_type = JStr ''status''
         then Inr (snapshot_status data client_socket s)
         else Inr (kkw_put client_socket msg_unknown s))"
| "process_message v client_socket s = Inl AttributeError"

text \<open>
  \<^verbatim>\<open>process_received_messages\<close> drains the inbound queue \<^verbatim>\<open>kko\<close>, given here as the
  list of its items; an exception ends the loop.
\<close>

fun process_received_messages :: "(conn \<times> json) list \<Rightarrow> server \<Rightarrow> exn + server" where
  "process_received_messages [] s = Inr s"
| "process_received_messages ((client_socket, data) # kko) s =
     (case process_message data client_socket s of
        Inl e \<Rightarrow> Inl e
      | Inr s' \<Rightarrow> process_received_messages kko s')"

section \<open>Disconnection (\<^verbatim>\<open>handle_disconnection\<close>)\<close>

text \<open>
  \<^verbatim>\<open>handle_disconnection\<close> announces each step with \<^verbatim>\<open>print\<close>, and the line it prints
  formats the topic with \<^verbatim>\<open>str\<close>. \<^verbatim>\<open>print\<close> writes to \<^verbatim>\<open>sys.stdout\<close>, which belongs to the
  environment: \<open>can_print\<close> says which texts stdout can encode, and on any other text
  \<^verbatim>\<open>print\<close> raises \<^verbatim>\<open>UnicodeEncodeError\<close>.
\<close>

definition log_producer_gone :: "scalar \<Rightarrow> string" where
  "log_producer_gone topic =
     ''Producer of topic '' @ py_str topic @ '' disconnected. Deleting topic.''"

definition log_subscriber_gone :: "scalar \<Rightarrow> string" where
  "log_subscriber_gone topic =
     ''Subscriber of topic '' @ py_str topic @ '' disconnected. Deleting subscription.''"

definition log_topic_removed :: "scalar \<Rightarrow> string" where
  "log_topic_removed topic = ''Topic '' @ py_str topic @ '' has been removed.''"

text \<open>
  The first loop runs over a snapshot of the items, of which \<open>items\<close> is the part still to
  visit; \<open>topics_to_remove\<close> and the dict \<open>ts\<close> are as the loop has left them so far. The
  loop variable \<^verbatim>\<open>topic\<close> is a key object of the dict: the key of its entry, by which the
  dict finds it, and the \<open>name\<close> of the entry, which \<^verbatim>\<open>str\<close> formats. The value \<open>info\<close> is
  the object in the dict itself, and no earlier round of the loop has changed it;
  \<^verbatim>\<open>self.topics[topic]\<close> raises \<^verbatim>\<open>KeyError\<close> when the key is not in the dict. Each
  \<^verbatim>\<open>print\<close> stands before the statement it announces, so an exception leaves that
  statement and the rest of the loop undone and keeps the subscriptions removed before it.
\<close>

fun collect_topics :: "(string \<Rightarrow> bool) \<Rightarrow> conn \<Rightarrow> (scalar \<times> topic_info) list \<Rightarrow>
    (scalar \<times> scalar) list \<Rightarrow> (scalar \<times> topic_info) list \<Rightarrow>
    exn option \<times> (scalar \<times> scalar) list \<times> (scalar \<times> topic_info) list" where
  "collect_topics can_print client_socket [] topics_to_remove ts = (None, topics_to_remove, ts)"
| "collect_topics can_print client_socket ((topic, info) # items) topics_to_remove ts =
     (if producer info = client_socket \<and> \<not> can_print (log_producer_gone (name info))
      then (Some UnicodeEncodeError, topics_to_remove, ts)
      else
        let topics_to_remove' =
              (if producer info = client_socket
               then topics_to_remove @ [(topic, name info)] else topics_to_remove)
        in if List.member (subscribers info) client_socket
           then if \<not> can_print (log_subscriber_gone (name info))
                then (Some UnicodeEncodeError, topics_to_remove', ts)
                else if map_of ts topic = None then (Some KeyError, topics_to_remove', ts)
                else collect_topics can_print client_socket items topics_to_remove'
                       (AList.map_entry topic
                          (\<lambda>i. i\<lparr>subscribers := remove1 client_socket (subscribers i)\<rparr>) ts)
           else collect_topics can_print client_socket items topics_to_remove' ts)"

text \<open>
  The second loop deletes the collected topics. \<^verbatim>\<open>del\<close> raises \<^verbatim>\<open>KeyError\<close> when the
  key is not in the dict, and here \<^verbatim>\<open>print\<close> comes after the deletion: an exception
  keeps the topics deleted so far and leaves the rest in the dict.
\<close>

fun delete_topics :: "(string \<Rightarrow> bool) \<Rightarrow> (scalar \<times> scalar) list \<Rightarrow>
    (scalar \<times> topic_info) list \<Rightarrow> exn option \<times> (scalar \<times> topic_info) list" where
  "delete_topics can_print [] ts = (None, ts)"
| "delete_topics can_print ((topic, topic_name) # topics_to_remove) ts =
     (if map_of ts topic = None then (Some KeyError, ts)
      else if \<not> can_print (log_topic_removed topic_name)
           then (Some UnicodeEncodeError, AList.delete topic ts)
           else delete_topics can_print topics_to_remove (AList.delete topic ts))"

text \<open>
  The whole cleanup. The result is the exception that ended it, if any, and the server
  as it is then: what the loops have written before an exception stays written.
\<close>

definition handle_disconnection :: "(string \<Rightarrow> bool) \<Rightarrow> conn \<Rightarrow> server \<Rightarrow> exn option \<times> server" where
  "handle_disconnection can_print client_socket s =
     (case collect_topics can_print client_socket (topics s) [] (topics s) of
        (Some e, topics_to_remove, ts) \<Rightarrow> (Some e, s\<lparr>topics := ts\<rparr>)
      | (None, topics_to_remove, ts) \<Rightarrow>
          (case delete_topics can_print topics_to_remove ts of
             (r, ts') \<Rightarrow> (r, s\<lparr>topics := ts'\<rparr>)))"

text \<open>The server after \<^verbatim>\<open>__init__\<close>.\<close>

definition init_server :: server where
  "init_server = \<lparr>topics = [], kkw = []\<rparr>"

section \<open>Notions used to state the properties\<close>

text \<open>
  The invariants of the registry: the keys of \<^verbatim>\<open>self.topics\<close> are pairwise different, so a
  topic name has one entry and with it one producer, and no socket is twice in a subscriber
  list. That an entry has a producer at all is part of its type.
\<close>

definition registry_inv :: "server \<Rightarrow> bool" where
  "registry_inv s \<longleftrightarrow>
     distinct (map fst (topics s)) \<and>
     (\<forall>info \<in> snd ` set (topics s). distinct (subscribers info))"

text \<open>A topic entry without the socket \<open>c\<close> among its subscribers.\<close>

definition drop_conn :: "conn \<Rightarrow> topic_info \<Rightarrow> topic_info" where
  "drop_conn c info = info\<lparr>subscribers := remove1 c (subscribers info)\<rparr>"

text \<open>
  The cleanup in the words of the specification: every topic that the connection produces
  is deleted, with its subscribers, and the connection is taken out of the subscribers of
  every other topic.
\<close>

definition on_disconnect :: "conn \<Rightarrow> server \<Rightarrow> server" where
  "on_disconnect c s =
     s\<lparr>topics := map (\<lambda>(k, info). (k, drop_conn c info))
                    (filter (\<lambda>(k, info). producer info \<noteq> c) (topics s))\<rparr>"

text \<open>
  Stdout can encode the three lines of \<^verbatim>\<open>handle_disconnection\<close> for every topic of the
  registry.
\<close>

definition printable :: "(string \<Rightarrow> bool) \<Rightarrow> server \<Rightarrow> bool" where
  "printable can_print s \<longleftrightarrow>
     (\<forall>info \<in> snd ` set (topics s).
        can_print (log_producer_gone (name info)) \<and>
        can_print (log_subscriber_gone (name info)) \<and>
        can_print (log_topic_removed (name info)))"

text \<open>
  The one-character string of the lone surrogate U+D800, which \<^verbatim>\<open>json.loads\<close> decodes from
  the six characters of its escape; here it is written as the three bytes of its
  generalised UTF-8 form. A stdout with the encoding UTF-8 and the error handler
  \<^verbatim>\<open>strict\<close>, which is what Python opens by default, cannot encode a text that holds it.
\<close>

definition lone_surrogate :: string where
  "lone_surrogate = [CHR 0xED, CHR 0xA0, CHR 0x80]"

definition utf8_stdout :: "string \<Rightarrow> bool" where
  "utf8_stdout txt \<longleftrightarrow> \<not> str_contains lone_surrogate txt"

text \<open>
  The pairs of type and mode that \<^verbatim>\<open>process_message\<close> routes to a registry operation:
  register and withdraw with mode producer or subscriber, message and status with any mode.
\<close>

definition routed :: "json \<Rightarrow> json \<Rightarrow> bool" where
  "routed ty md \<longleftrightarrow>
     (ty = JStr ''register'' \<or> ty = JStr ''withdraw'') \<and>
       (md = JStr ''producer'' \<or> md = JStr ''subscriber'')
     \<or> ty = JStr ''message'' \<or> ty = JStr ''status''"

text \<open>
  A result of \<^verbatim>\<open>process_message\<close> for the sender \<open>c\<close> that does not put the
  unknown-message-type text for \<open>c\<close> in the outbound queue.
\<close>

definition no_unknown :: "conn \<Rightarrow> server \<Rightarrow> exn + server \<Rightarrow> bool" where
  "no_unknown c s r \<longleftrightarrow>
     (\<forall>s'. r = Inr s' \<longrightarrow> (\<exists>xs. kkw s' = kkw s @ xs \<and> (c, msg_unknown) \<notin> set xs))"

text \<open>An envelope that asks to register a producer for the topic \<open>t\<close>.\<close>

definition register_producer_env :: "scalar \<Rightarrow> json \<Rightarrow> bool" where
  "register_producer_env t data \<longleftrightarrow>
     (case data of
        JObj d \<Rightarrow> dict_get d ''type'' = JStr ''register'' \<and>
                  dict_get d ''mode'' = JStr ''producer'' \<and>
                  dict_get d ''topic'' = json_of t
      | _ \<Rightarrow> False)"

text \<open>
  An envelope as the client builds it, with the fields in the client's order; the
  timestamp and the payload of the examples are fixed.
\<close>

definition envelope :: "string \<Rightarrow> string \<Rightarrow> json \<Rightarrow> string \<Rightarrow> json" where
  "envelope ty client_id topic md =
     JObj [(''type'', JStr ty), (''id'', JStr client_id), (''topic'', topic), (''mode'', JStr md),
           (''timestamp'', JStr ''2024-01-01T00:00:00''), (''payload'', JObj [])]"

section \<open>Validation: what \<^verbatim>\<open>validate_kom\<close> accepts\<close>

lemma check_required_obj:
  "check_required (JObj d) ks = Inr (\<forall>k \<in> set ks. map_of d k \<noteq> None)"
  by (induction ks) auto

lemma fromisoformat_Inr:
  "(fromisoformat parses v = Inr u) = (\<exists>ts. v = JStr ts \<and> parses ts)"
  by (cases v) auto

lemma py_subscript_obj_Inr:
  "(py_subscript (JObj d) k = Inr v) = (map_of d k = Some v)"
  by (simp split: option.splits)

lemma member_JStr4:
  "List.member [JStr a, JStr b, JStr c, JStr e] v \<longleftrightarrow> (\<exists>s. v = JStr s \<and> s \<in> {a, b, c, e})"
  by (cases v) auto

lemma member_JStr2:
  "List.member [JStr a, JStr b] v \<longleftrightarrow> (\<exists>s. v = JStr s \<and> s \<in> {a, b})"
  by (cases v) auto

lemma member_JStr1:
  "List.member [JStr a] v \<longleftrightarrow> v = JStr a"
  by (cases v) auto

lemma validate_shape:
  assumes "v = (case c of Inl e \<Rightarrow> Inl e | Inr complete \<Rightarrow>
      if \<not> complete then Inr False
      else (case pts of Inl e \<Rightarrow> Inl e | Inr ts \<Rightarrow>
        (case fromisoformat parses ts of Inl e \<Rightarrow> Inl e | Inr u \<Rightarrow>
          (case pty of Inl e \<Rightarrow> Inl e | Inr ty \<Rightarrow>
            if \<not> mt ty then Inr False
            else (case pmd of Inl e \<Rightarrow> Inl e | Inr md \<Rightarrow>
              if \<not> mm md \<and> \<not> ms ty then Inr False else Inr True)))))"
  shows "(case v of Inl e \<Rightarrow> False | Inr ok \<Rightarrow> ok) \<longleftrightarrow>
     c = Inr True \<and> (\<exists>ts. pts = Inr ts \<and> fromisoformat parses ts = Inr () \<and>
       (\<exists>ty. pty = Inr ty \<and> mt ty \<and> (\<exists>md. pmd = Inr md \<and> (mm md \<or> ms ty))))"
  unfolding assms by (auto split: sum.splits)

lemma validate_kom_unfold:
  "validate_kom parses data \<longleftrightarrow>
     check_required data required_keys = Inr True \<and>
     (\<exists>ts. py_subscript data ''timestamp'' = Inr ts \<and> fromisoformat parses ts = Inr () \<and>
       (\<exists>ty. py_subscript data ''type'' = Inr ty \<and>
          List.member [JStr ''register'', JStr ''withdraw'', JStr ''message'', JStr ''status''] ty \<and>
          (\<exists>md. py_subscript data ''mode'' = Inr md \<and>
             (List.member [JStr ''producer'', JStr ''subscriber''] md \<or>
              List.member [JStr ''status''] ty))))"
  unfolding validate_kom_def by (rule validate_shape) (rule validate_try_def)

lemma validate_kom_obj_raw:
  "validate_kom parses (JObj d) \<longleftrightarrow>
     (\<forall>k \<in> set required_keys. map_of d k \<noteq> None) \<and>
     (\<exists>ts. map_of d ''timestamp'' = Some ts \<and> (\<exists>s. ts = JStr s \<and> parses s) \<and>
       (\<exists>ty. map_of d ''type'' = Some ty \<and>
          (\<exists>s. ty = JStr s \<and> s \<in> {''register'', ''withdraw'', ''message'', ''status''}) \<and>
          (\<exists>md. map_of d ''mode'' = Some md \<and>
             ((\<exists>s. md = JStr s \<and> s \<in> {''producer'', ''subscriber''}) \<or> ty = JStr ''status''))))"
  by (simp only: validate_kom_unfold check_required_obj py_subscript_obj_Inr fromisoformat_Inr
        member_JStr4 member_JStr2 member_JStr1 sum.inject simp_thms)

lemma validate_assemble:
  assumes "A \<Longrightarrow> \<exists>m. M m"
  shows "(A \<and> (\<exists>ts. T ts \<and> (\<exists>s. ts = JStr s \<and> P s) \<and>
            (\<exists>ty. Y ty \<and> (\<exists>s. ty = JStr s \<and> s \<in> S) \<and>
               (\<exists>md. M md \<and> ((\<exists>s. md = JStr s \<and> s \<in> S2) \<or> ty = JStr st))))) \<longleftrightarrow>
         (A \<and> (\<exists>ts. T (JStr ts) \<and> P ts) \<and>
            (\<exists>ty. Y (JStr ty) \<and> ty \<in> S \<and> (ty = st \<or> (\<exists>md. M (JStr md) \<and> md \<in> S2))))"
  using assms by (auto; blast)

lemma mode_required:
  "(\<forall>k \<in> set required_keys. map_of d k \<noteq> None) \<Longrightarrow> \<exists>m. map_of d ''mode'' = Some m"
  by (simp add: required_keys_def)

lemma validate_kom_obj:
  "validate_kom parses (JObj d) \<longleftrightarrow>
     (\<forall>k \<in> set required_keys. map_of d k \<noteq> None) \<and>
     (\<exists>ts. map_of d ''timestamp'' = Some (JStr ts) \<and> parses ts) \<and>
     (\<exists>ty. map_of d ''type'' = Some (JStr ty) \<and>
        ty \<in> {''register'', ''withdraw'', ''message'', ''status''} \<and>
        (ty = ''status'' \<or>
         (\<exists>md. map_of d ''mode'' = Some (JStr md) \<and> md \<in> {''producer'', ''subscriber''})))"
  unfolding validate_kom_obj_raw
  by (rule validate_assemble [where M = "\<lambda>m. map_of d ''mode'' = Some m"
        and T = "\<lambda>v. map_of d ''timestamp'' = Some v" and Y = "\<lambda>v. map_of d ''type'' = Some v"])
     (rule mode_required)

lemma validate_kom_not_obj:
  "(\<And>d. data \<noteq> JObj d) \<Longrightarrow> \<not> validate_kom parses data"
proof (cases data)
  case (JObj d)
  assume "\<And>d. data \<noteq> JObj d"
  with JObj show ?thesis by blast
qed (simp_all add: validate_kom_def validate_try_def split: sum.splits)

lemma ex_obj: "(\<exists>d'. JObj d = JObj d' \<and> P d') \<longleftrightarrow> P d"
  by auto

text \<open>
  C7. \<^verbatim>\<open>validate_kom\<close> returns true exactly when the envelope is a dict that holds all six
  required keys, whose timestamp is a string that \<^verbatim>\<open>fromisoformat\<close> parses, whose type is
  one of the four kinds, and whose mode is producer or subscriber unless the type is status.
  Everything else, also every exception of the body, gives false.
\<close>

theorem validate_kom_iff:
  "validate_kom parses data \<longleftrightarrow>
     (\<exists>d. data = JObj d \<and>
        (\<forall>k \<in> set required_keys. map_of d k \<noteq> None) \<and>
        (\<exists>ts. map_of d ''timestamp'' = Some (JStr ts) \<and> parses ts) \<and>
        (\<exists>ty. map_of d ''type'' = Some (JStr ty) \<and>
           ty \<in> {''register'', ''withdraw'', ''message'', ''status''} \<and>
           (ty = ''status'' \<or>
            (\<exists>md. map_of d ''mode'' = Some (JStr md) \<and> md \<in> {''producer'', ''subscriber''}))))"
proof (cases "\<exists>d. data = JObj d")
  case True
  then obtain d where d: "data = JObj d" by blast
  show ?thesis unfolding d ex_obj by (rule validate_kom_obj)
next
  case False
  then have "\<not> validate_kom parses data" by (intro validate_kom_not_obj) blast
  with False show ?thesis by blast
qed

theorem validate_kom_iff_witness:
  "validate_kom (\<lambda>s. s = ''2024-01-01T00:00:00'')
     (JObj [(''type'', JStr ''status''), (''id'', JStr ''c1''), (''topic'', JStr ''logs''),
            (''mode'', JStr []), (''timestamp'', JStr ''2024-01-01T00:00:00''),
            (''payload'', JObj [])])
   \<and> \<not> validate_kom (\<lambda>s. s = ''2024-01-01T00:00:00'')
     (JObj [(''type'', JStr ''register''), (''id'', JStr ''c1''), (''topic'', JStr ''logs''),
            (''mode'', JStr []), (''timestamp'', JStr ''2024-01-01T00:00:00''),
            (''payload'', JObj [])])"
  by (simp add: validate_kom_iff required_keys_def)

section \<open>Lemmas about the registry operations\<close>

lemma as_hashable_json_of [simp]: "as_hashable (json_of t) = Some t"
  by (cases t) simp_all

lemma as_hashable_Some: "as_hashable v = Some t \<Longrightarrow> v = json_of t"
  by (cases v) auto

lemma topics_kkw_put [simp]: "topics (kkw_put c m s) = topics s"
  by (simp add: kkw_put_def)

lemma kkw_kkw_put [simp]: "kkw (kkw_put c m s) = kkw s @ [(c, m)]"
  by (simp add: kkw_put_def)

lemma topics_fold_put [simp]: "topics (fold (\<lambda>sub. kkw_put sub m) subs s) = topics s"
  by (induction subs arbitrary: s) simp_all

lemma kkw_fold_put [simp]:
  "kkw (fold (\<lambda>sub. kkw_put sub m) subs s) = kkw s @ map (\<lambda>sub. (sub, m)) subs"
  by (induction subs arbitrary: s) simp_all

lemma registry_inv_kkw_put [simp]: "registry_inv (kkw_put c m s) = registry_inv s"
  by (simp add: registry_inv_def)

lemma registry_inv_fold_put [simp]:
  "registry_inv (fold (\<lambda>sub. kkw_put sub m) subs s) = registry_inv s"
  by (simp add: registry_inv_def)

lemma map_of_None_notin: "map_of xs k = None \<Longrightarrow> k \<notin> fst ` set xs"
  by (simp add: map_of_eq_None_iff)

lemma update_absent: "map_of xs k = None \<Longrightarrow> AList.update k v xs = xs @ [(k, v)]"
  by (induction xs) (auto split: if_splits)

lemma map_entry_set:
  "(k', v') \<in> set (AList.map_entry k f xs) \<Longrightarrow> (k', v') \<in> set xs \<or> (\<exists>v. (k', v) \<in> set xs \<and> v' = f v)"
  by (induction xs) (auto split: if_splits)

lemma delete_set: "(k', v') \<in> set (AList.delete k xs) \<Longrightarrow> (k', v') \<in> set xs"
  by (simp add: AList.delete_eq)

lemma distinct_remove1_subs: "distinct xs \<Longrightarrow> distinct (remove1 c xs)"
  by simp

lemma map_entry_cases:
  "(k', v') \<in> set (AList.map_entry k f xs) \<Longrightarrow>
     (k', v') \<in> set xs \<or> (k' = k \<and> (\<exists>v. map_of xs k = Some v \<and> v' = f v))"
  by (induction xs) (auto split: if_splits)

lemma ball_snd_map_entry:
  assumes "\<forall>v \<in> snd ` set xs. P v" and "\<And>v. map_of xs k = Some v \<Longrightarrow> P (f v)"
  shows "\<forall>v \<in> snd ` set (AList.map_entry k f xs). P v"
proof
  fix v' assume "v' \<in> snd ` set (AList.map_entry k f xs)"
  then obtain k' where "(k', v') \<in> set (AList.map_entry k f xs)" by auto
  from map_entry_cases [OF this] show "P v'"
  proof
    assume "(k', v') \<in> set xs"
    then have "v' \<in> snd ` set xs" by force
    with assms(1) show ?thesis by blast
  next
    assume "k' = k \<and> (\<exists>v. map_of xs k = Some v \<and> v' = f v)"
    with assms(2) show ?thesis by blast
  qed
qed

lemma registry_inv_map_entry:
  assumes "registry_inv s"
    and "\<And>info. map_of (topics s) k = Some info \<Longrightarrow> distinct (subscribers info) \<Longrightarrow>
           distinct (subscribers (f info))"
  shows "registry_inv (s\<lparr>topics := AList.map_entry k f (topics s)\<rparr>)"
proof -
  from assms(1) have d: "distinct (map fst (topics s))"
    and b: "\<forall>v \<in> snd ` set (topics s). distinct (subscribers v)"
    by (simp_all add: registry_inv_def)
  have "\<forall>v \<in> snd ` set (AList.map_entry k f (topics s)). distinct (subscribers v)"
  proof (rule ball_snd_map_entry [OF b])
    fix v assume m: "map_of (topics s) k = Some v"
    then have "(k, v) \<in> set (topics s)" by (rule map_of_SomeD)
    then have "v \<in> snd ` set (topics s)" by force
    with b have "distinct (subscribers v)" by blast
    with m show "distinct (subscribers (f v))" by (rule assms(2))
  qed
  with d show ?thesis by (simp add: registry_inv_def AList.distinct_map_entry)
qed

lemma registry_inv_delete:
  assumes "registry_inv s"
  shows "registry_inv (s\<lparr>topics := AList.delete k (topics s)\<rparr>)"
proof -
  have "set (AList.delete k (topics s)) \<subseteq> set (topics s)"
    by (auto simp: AList.delete_eq)
  with assms show ?thesis
    by (auto simp: registry_inv_def AList.distinct_delete)
qed

lemma registry_inv_append:
  assumes "registry_inv s" and "map_of (topics s) k = None" and "distinct (subscribers info)"
  shows "registry_inv (s\<lparr>topics := topics s @ [(k, info)]\<rparr>)"
  using assms by (auto simp: registry_inv_def map_of_eq_None_iff)

lemma register_producer_inv:
  assumes "registry_inv s" and "register_producer topic i c s = Inr s'"
  shows "registry_inv s'"
proof (cases "as_hashable topic")
  case None
  with assms(2) show ?thesis by (simp add: register_producer_def)
next
  case (Some t)
  show ?thesis
  proof (cases "map_of (topics s) (py_key t)")
    case None
    with Some assms(2) have "s' = kkw_put c (msg_created t)
        (s\<lparr>topics := topics s @ [(py_key t,
           \<lparr>name = t, producer = c, producer_id = i, subscribers = []\<rparr>)]\<rparr>)"
      by (simp add: register_producer_def update_absent)
    with assms(1) None show ?thesis by (simp add: registry_inv_append)
  next
    case (Some info)
    with \<open>as_hashable topic = Some t\<close> assms show ?thesis
      by (auto simp: register_producer_def split: if_splits)
  qed
qed

lemma register_subscriber_inv:
  assumes "registry_inv s" and "register_subscriber topic c s = Inr s'"
  shows "registry_inv s'"
proof (cases "as_hashable topic")
  case None
  with assms(2) show ?thesis by (simp add: register_subscriber_def)
next
  case (Some t)
  show ?thesis
  proof (cases "map_of (topics s) (py_key t)")
    case None
    with Some assms show ?thesis by (auto simp: register_subscriber_def)
  next
    case (Some info)
    show ?thesis
    proof (cases "c \<in> set (subscribers info)")
      case True
      with Some \<open>as_hashable topic = Some t\<close> assms show ?thesis
        by (auto simp: register_subscriber_def)
    next
      case False
      with Some \<open>as_hashable topic = Some t\<close> assms(2)
      have "s' = kkw_put c (msg_subscribed t)
          (s\<lparr>topics := AList.map_entry (py_key t)
             (\<lambda>i. i\<lparr>subscribers := subscribers i @ [c]\<rparr>) (topics s)\<rparr>)"
        by (simp add: register_subscriber_def)
      moreover have "registry_inv (s\<lparr>topics := AList.map_entry (py_key t)
             (\<lambda>i. i\<lparr>subscribers := subscribers i @ [c]\<rparr>) (topics s)\<rparr>)"
        using assms(1) Some False by (intro registry_inv_map_entry) auto
      ultimately show ?thesis by simp
    qed
  qed
qed

lemma withdraw_subscriber_inv:
  assumes "registry_inv s" and "withdraw_subscriber topic c s = Inr s'"
  shows "registry_inv s'"
proof (cases "as_hashable topic")
  case None
  with assms(2) show ?thesis by (simp add: withdraw_subscriber_def)
next
  case (Some t)
  show ?thesis
  proof (cases "map_of (topics s) (py_key t)")
    case None
    with Some assms show ?thesis by (auto simp: withdraw_subscriber_def)
  next
    case (Some info)
    show ?thesis
    proof (cases "c \<in> set (subscribers info)")
      case False
      with Some \<open>as_hashable topic = Some t\<close> assms show ?thesis
        by (auto simp: withdraw_subscriber_def)
    next
      case True
      with Some \<open>as_hashable topic = Some t\<close> assms(2)
      have "s' = kkw_put c (msg_subscription_withdrawn t)
          (s\<lparr>topics := AList.map_entry (py_key t)
             (\<lambda>i. i\<lparr>subscribers := remove1 c (subscribers i)\<rparr>) (topics s)\<rparr>)"
        by (simp add: withdraw_subscriber_def)
      moreover have "registry_inv (s\<lparr>topics := AList.map_entry (py_key t)
             (\<lambda>i. i\<lparr>subscribers := remove1 c (subscribers i)\<rparr>) (topics s)\<rparr>)"
        using assms(1) by (intro registry_inv_map_entry) auto
      ultimately show ?thesis by simp
    qed
  qed
qed

lemma withdraw_producer_inv:
  assumes "registry_inv s" and "withdraw_producer topic c s = Inr s'"
  shows "registry_inv s'"
  using assms
  by (auto simp: withdraw_producer_def registry_inv_delete split: option.splits if_splits)

lemma publish_topics:
  "publish topic payload c s = Inr s' \<Longrightarrow> topics s' = topics s"
  by (auto simp: publish_def split: option.splits if_splits)

lemma snapshot_status_topics [simp]: "topics (snapshot_status d c s) = topics s"
  by (simp add: snapshot_status_def)

lemma registry_inv_topics_eq: "topics s' = topics s \<Longrightarrow> registry_inv s \<Longrightarrow> registry_inv s'"
  by (simp add: registry_inv_def)

lemma registry_inv_drop_entry:
  assumes "registry_inv (s\<lparr>topics := ts\<rparr>)"
  shows "registry_inv (s\<lparr>topics := AList.map_entry k
           (\<lambda>i. i\<lparr>subscribers := remove1 c (subscribers i)\<rparr>) ts\<rparr>)"
proof -
  from registry_inv_map_entry [of "s\<lparr>topics := ts\<rparr>" k
      "\<lambda>i. i\<lparr>subscribers := remove1 c (subscribers i)\<rparr>"] assms
  show ?thesis by simp
qed

lemma registry_inv_delete_entry:
  assumes "registry_inv (s\<lparr>topics := ts\<rparr>)"
  shows "registry_inv (s\<lparr>topics := AList.delete k ts\<rparr>)"
proof -
  from registry_inv_delete [of "s\<lparr>topics := ts\<rparr>" k] assms show ?thesis by simp
qed

lemma collect_topics_inv:
  assumes "registry_inv (s\<lparr>topics := ts\<rparr>)"
    and "collect_topics can_print c items rm ts = (r, rm', ts')"
  shows "registry_inv (s\<lparr>topics := ts'\<rparr>)"
  using assms
proof (induction items arbitrary: rm ts)
  case Nil
  then show ?case by simp
next
  case (Cons x items)
  obtain k info where x: "x = (k, info)" by (cases x)
  let ?rm = "if producer info = c then rm @ [(k, name info)] else rm"
  let ?ts = "AList.map_entry k (\<lambda>i. i\<lparr>subscribers := remove1 c (subscribers i)\<rparr>) ts"
  from Cons.prems(2) consider
      (raised) "ts' = ts"
    | (removed) "collect_topics can_print c items ?rm ?ts = (r, rm', ts')"
    | (kept) "collect_topics can_print c items ?rm ts = (r, rm', ts')"
    unfolding x by (simp add: Let_def split: if_splits)
  then show ?case
  proof cases
    case raised
    with Cons.prems(1) show ?thesis by simp
  next
    case removed
    from Cons.prems(1) have "registry_inv (s\<lparr>topics := ?ts\<rparr>)"
      by (rule registry_inv_drop_entry)
    then show ?thesis using removed by (rule Cons.IH)
  next
    case kept
    from Cons.prems(1) kept show ?thesis by (rule Cons.IH)
  qed
qed

lemma delete_topics_inv:
  assumes "registry_inv (s\<lparr>topics := ts\<rparr>)"
    and "delete_topics can_print rm ts = (r, ts')"
  shows "registry_inv (s\<lparr>topics := ts'\<rparr>)"
  using assms
proof (induction rm arbitrary: ts)
  case Nil
  then show ?case by simp
next
  case (Cons x rm)
  obtain k n where x: "x = (k, n)" by (cases x)
  from Cons.prems(2) consider
      (raised) "ts' = ts"
    | (printed) "ts' = AList.delete k ts"
    | (deleted) "delete_topics can_print rm (AList.delete k ts) = (r, ts')"
    unfolding x by (simp split: if_splits)
  then show ?case
  proof cases
    case raised
    with Cons.prems(1) show ?thesis by simp
  next
    case printed
    with registry_inv_delete_entry [OF Cons.prems(1)] show ?thesis by simp
  next
    case deleted
    from registry_inv_delete_entry [OF Cons.prems(1)] deleted show ?thesis by (rule Cons.IH)
  qed
qed

lemma handle_disconnection_inv:
  assumes "registry_inv s"
  shows "registry_inv (snd (handle_disconnection can_print c s))"
proof -
  obtain r rm ts where 1: "collect_topics can_print c (topics s) [] (topics s) = (r, rm, ts)"
    by (metis prod_cases3)
  from assms have "registry_inv (s\<lparr>topics := topics s\<rparr>)" by simp
  from collect_topics_inv [OF this 1] have i1: "registry_inv (s\<lparr>topics := ts\<rparr>)" .
  show ?thesis
  proof (cases r)
    case (Some e)
    with 1 i1 show ?thesis by (simp add: handle_disconnection_def)
  next
    case None
    obtain r2 ts2 where 2: "delete_topics can_print rm ts = (r2, ts2)" by (cases "delete_topics can_print rm ts")
    from delete_topics_inv [OF i1 2] have "registry_inv (s\<lparr>topics := ts2\<rparr>)" .
    with None 1 2 show ?thesis by (simp add: handle_disconnection_def)
  qed
qed

lemma handle_disconnection_kkw [simp]:
  "kkw (snd (handle_disconnection can_print c s)) = kkw s"
  by (simp add: handle_disconnection_def split: prod.splits option.splits)

lemma register_producer_absent:
  "map_of (topics s) (py_key t) = None \<Longrightarrow>
   register_producer (json_of t) i c s =
     Inr (kkw_put c (msg_created t)
       (s\<lparr>topics := topics s @ [(py_key t,
          \<lparr>name = t, producer = c, producer_id = i, subscribers = []\<rparr>)]\<rparr>))"
  by (simp add: register_producer_def update_absent)

lemma register_producer_present:
  "map_of (topics s) (py_key t) = Some info \<Longrightarrow>
   register_producer (json_of t) i c s =
     Inr (kkw_put c (if producer info = c then msg_already_producer t else msg_name_taken t) s)"
  by (simp add: register_producer_def)

lemma register_subscriber_absent:
  "map_of (topics s) (py_key t) = None \<Longrightarrow>
   register_subscriber (json_of t) c s = Inr (kkw_put c (msg_no_such_topic t) s)"
  by (simp add: register_subscriber_def)

lemma register_subscriber_already:
  "map_of (topics s) (py_key t) = Some info \<Longrightarrow> c \<in> set (subscribers info) \<Longrightarrow>
   register_subscriber (json_of t) c s = Inr (kkw_put c (msg_already_subscribed t) s)"
  by (simp add: register_subscriber_def)

lemma register_subscriber_new:
  "map_of (topics s) (py_key t) = Some info \<Longrightarrow> c \<notin> set (subscribers info) \<Longrightarrow>
   register_subscriber (json_of t) c s =
     Inr (kkw_put c (msg_subscribed t)
       (s\<lparr>topics := AList.map_entry (py_key t)
          (\<lambda>i. i\<lparr>subscribers := subscribers i @ [c]\<rparr>) (topics s)\<rparr>))"
  by (simp add: register_subscriber_def)

lemma withdraw_subscriber_absent:
  "map_of (topics s) (py_key t) = None \<Longrightarrow>
   withdraw_subscriber (json_of t) c s = Inr (kkw_put c (msg_no_such_topic t) s)"
  by (simp add: withdraw_subscriber_def)

lemma withdraw_subscriber_not:
  "map_of (topics s) (py_key t) = Some info \<Longrightarrow> c \<notin> set (subscribers info) \<Longrightarrow>
   withdraw_subscriber (json_of t) c s = Inr (kkw_put c (msg_not_subscriber t) s)"
  by (simp add: withdraw_subscriber_def)

lemma withdraw_producer_absent:
  "map_of (topics s) (py_key t) = None \<Longrightarrow>
   withdraw_producer (json_of t) c s = Inr (kkw_put c (msg_no_such_topic t) s)"
  by (simp add: withdraw_producer_def)

lemma withdraw_producer_not:
  "map_of (topics s) (py_key t) = Some info \<Longrightarrow> producer info \<noteq> c \<Longrightarrow>
   withdraw_producer (json_of t) c s = Inr (kkw_put c (msg_not_producer t) s)"
  by (simp add: withdraw_producer_def)

lemma withdraw_producer_removed:
  "map_of (topics s) (py_key t) = Some info \<Longrightarrow> producer info = c \<Longrightarrow>
   withdraw_producer (json_of t) c s =
     Inr (kkw_put c (msg_topic_withdrawn t) (s\<lparr>topics := AList.delete (py_key t) (topics s)\<rparr>))"
  by (simp add: withdraw_producer_def)

lemma publish_absent:
  "map_of (topics s) (py_key t) = None \<Longrightarrow>
   publish (json_of t) p c s = Inr (kkw_put c (msg_no_such_topic t) s)"
  by (simp add: publish_def)

lemma publish_not:
  "map_of (topics s) (py_key t) = Some info \<Longrightarrow> producer info \<noteq> c \<Longrightarrow>
   publish (json_of t) p c s = Inr (kkw_put c (msg_not_producer t) s)"
  by (simp add: publish_def)

lemma fold_put_eq:
  "fold (\<lambda>sub. kkw_put sub m) subs s = s\<lparr>kkw := kkw s @ map (\<lambda>sub. (sub, m)) subs\<rparr>"
  by (induction subs arbitrary: s) (simp_all add: kkw_put_def)

lemma publish_delivered:
  "map_of (topics s) (py_key t) = Some info \<Longrightarrow> producer info = c \<Longrightarrow>
   publish (json_of t) p c s =
     Inr (s\<lparr>kkw := kkw s @
        map (\<lambda>sub. (sub, Json (JObj [(''topic'', json_of t), (''payload'', p)])))
          (subscribers info)\<rparr>)"
  by (simp add: publish_def fold_put_eq)

lemma map_of_delete_same [simp]: "map_of (AList.delete k xs) k = None"
  by (simp add: AList.delete_conv')

lemma unhashable_raises:
  "as_hashable topic = None \<Longrightarrow>
     register_producer topic i c s = Inl TypeError \<and>
     register_subscriber topic c s = Inl TypeError \<and>
     withdraw_subscriber topic c s = Inl TypeError \<and>
     withdraw_producer topic c s = Inl TypeError \<and>
     publish topic p c s = Inl TypeError"
  by (simp add: register_producer_def register_subscriber_def withdraw_subscriber_def
      withdraw_producer_def publish_def)

lemma hashable_returns:
  "as_hashable topic = Some t \<Longrightarrow>
     (\<exists>s'. register_producer topic i c s = Inr s') \<and>
     (\<exists>s'. register_subscriber topic c s = Inr s') \<and>
     (\<exists>s'. withdraw_subscriber topic c s = Inr s') \<and>
     (\<exists>s'. withdraw_producer topic c s = Inr s') \<and>
     (\<exists>s'. publish topic p c s = Inr s')"
  by (simp add: register_producer_def register_subscriber_def withdraw_subscriber_def
      withdraw_producer_def publish_def split: option.splits)

lemma if_chain_P:
  "P x1 \<Longrightarrow> P x2 \<Longrightarrow> P x3 \<Longrightarrow> P x4 \<Longrightarrow> P x5 \<Longrightarrow> P x6 \<Longrightarrow> P x7 \<Longrightarrow>
   P (if a1 then x1 else if a2 then x2 else if a3 then x3 else if a4 then x4
      else if a5 then x5 else if a6 then x6 else x7)"
  by simp

lemma process_message_obj_P:
  assumes "\<And>topic i. P (register_producer topic i c s)"
    and "\<And>topic. P (register_subscriber topic c s)"
    and "\<And>topic. P (withdraw_subscriber topic c s)"
    and "\<And>topic. P (withdraw_producer topic c s)"
    and "\<And>topic p. P (publish topic p c s)"
    and "P (Inr (snapshot_status d c s))"
    and "P (Inr (kkw_put c msg_unknown s))"
  shows "P (process_message (JObj d) c s)"
proof -
  have "process_message (JObj d) c s =
     (if dict_get d ''type'' = JStr ''register'' \<and> dict_get d ''mode'' = JStr ''producer''
         then register_producer (dict_get d ''topic'') (dict_get d ''id'') c s
         else if dict_get d ''type'' = JStr ''register'' \<and> dict_get d ''mode'' = JStr ''subscriber''
         then register_subscriber (dict_get d ''topic'') c s
         else if dict_get d ''type'' = JStr ''withdraw'' \<and> dict_get d ''mode'' = JStr ''subscriber''
         then withdraw_subscriber (dict_get d ''topic'') c s
         else if dict_get d ''type'' = JStr ''withdraw'' \<and> dict_get d ''mode'' = JStr ''producer''
         then withdraw_producer (dict_get d ''topic'') c s
         else if dict_get d ''type'' = JStr ''message''
         then publish (dict_get d ''topic'') (dict_get d ''payload'') c s
         else if dict_get d ''type'' = JStr ''status''
         then Inr (snapshot_status d c s)
         else Inr (kkw_put c msg_unknown s))"
    by (simp only: process_message.simps Let_def)
  also have "P \<dots>"
    by (rule if_chain_P [where P = P]) (fact assms)+
  finally show ?thesis .
qed

lemma process_message_inv:
  assumes "registry_inv s" and "process_message data c s = Inr s'"
  shows "registry_inv s'"
proof (cases data)
  case (JObj d)
  have "\<forall>s'. process_message (JObj d) c s = Inr s' \<longrightarrow> registry_inv s'"
  proof (rule process_message_obj_P [where P = "\<lambda>r. \<forall>s'. r = Inr s' \<longrightarrow> registry_inv s'"])
    show "\<forall>s'. register_producer topic i c s = Inr s' \<longrightarrow> registry_inv s'" for topic i
      using assms(1) by (blast intro: register_producer_inv)
    show "\<forall>s'. register_subscriber topic c s = Inr s' \<longrightarrow> registry_inv s'" for topic
      using assms(1) by (blast intro: register_subscriber_inv)
    show "\<forall>s'. withdraw_subscriber topic c s = Inr s' \<longrightarrow> registry_inv s'" for topic
      using assms(1) by (blast intro: withdraw_subscriber_inv)
    show "\<forall>s'. withdraw_producer topic c s = Inr s' \<longrightarrow> registry_inv s'" for topic
      using assms(1) by (blast intro: withdraw_producer_inv)
    show "\<forall>s'. publish topic p c s = Inr s' \<longrightarrow> registry_inv s'" for topic p
      using assms(1) by (blast dest: publish_topics intro: registry_inv_topics_eq)
    show "\<forall>s'. Inr (snapshot_status d c s) = Inr s' \<longrightarrow> registry_inv s'"
      using assms(1) by (auto intro: registry_inv_topics_eq)
    show "\<forall>s'. Inr (kkw_put c msg_unknown s) = Inr s' \<longrightarrow> registry_inv s'"
      using assms(1) by auto
  qed
  with JObj assms(2) show ?thesis by blast
qed (use assms in simp_all)

lemma process_received_messages_inv:
  "registry_inv s \<Longrightarrow> process_received_messages kko s = Inr s' \<Longrightarrow> registry_inv s'"
proof (induction kko arbitrary: s)
  case Nil
  then show ?case by simp
next
  case (Cons x kko)
  obtain c data where x: "x = (c, data)" by (cases x)
  from Cons.prems(2) x obtain s1 where s1: "process_message data c s = Inr s1"
    and rest: "process_received_messages kko s1 = Inr s'"
    by (auto split: sum.splits)
  from process_message_inv [OF Cons.prems(1) s1] rest show ?case by (rule Cons.IH)
qed

lemma pm_register_producer:
  "dict_get d ''type'' = JStr ''register'' \<Longrightarrow> dict_get d ''mode'' = JStr ''producer'' \<Longrightarrow>
   process_message (JObj d) c s = register_producer (dict_get d ''topic'') (dict_get d ''id'') c s"
  by (simp add: Let_def)

lemma pm_register_subscriber:
  "dict_get d ''type'' = JStr ''register'' \<Longrightarrow> dict_get d ''mode'' = JStr ''subscriber'' \<Longrightarrow>
   process_message (JObj d) c s = register_subscriber (dict_get d ''topic'') c s"
  by (simp add: Let_def)

lemma pm_withdraw_subscriber:
  "dict_get d ''type'' = JStr ''withdraw'' \<Longrightarrow> dict_get d ''mode'' = JStr ''subscriber'' \<Longrightarrow>
   process_message (JObj d) c s = withdraw_subscriber (dict_get d ''topic'') c s"
  by (simp add: Let_def)

lemma pm_withdraw_producer:
  "dict_get d ''type'' = JStr ''withdraw'' \<Longrightarrow> dict_get d ''mode'' = JStr ''producer'' \<Longrightarrow>
   process_message (JObj d) c s = withdraw_producer (dict_get d ''topic'') c s"
  by (simp add: Let_def)

lemma pm_message:
  "dict_get d ''type'' = JStr ''message'' \<Longrightarrow>
   process_message (JObj d) c s = publish (dict_get d ''topic'') (dict_get d ''payload'') c s"
  by (simp add: Let_def)

lemma pm_status:
  "dict_get d ''type'' = JStr ''status'' \<Longrightarrow>
   process_message (JObj d) c s = Inr (snapshot_status d c s)"
  by (simp add: Let_def)

lemma not_routed_generic:
  assumes "\<not> ((ty = r \<or> ty = w) \<and> (md = p \<or> md = sb) \<or> ty = m \<or> ty = st)"
  shows "\<not> (ty = r \<and> md = p)" "\<not> (ty = r \<and> md = sb)" "\<not> (ty = w \<and> md = sb)"
    "\<not> (ty = w \<and> md = p)" "ty \<noteq> m" "ty \<noteq> st"
  using assms by blast+

lemma pm_unknown:
  assumes "\<not> routed (dict_get d ''type'') (dict_get d ''mode'')"
  shows "process_message (JObj d) c s = Inr (kkw_put c msg_unknown s)"
  using not_routed_generic [OF assms [unfolded routed_def]]
  by (simp only: process_message.simps Let_def if_False)

lemma routed_cases:
  assumes "routed ty md"
  obtains "ty = JStr ''register''" "md = JStr ''producer''"
  | "ty = JStr ''register''" "md = JStr ''subscriber''"
  | "ty = JStr ''withdraw''" "md = JStr ''subscriber''"
  | "ty = JStr ''withdraw''" "md = JStr ''producer''"
  | "ty = JStr ''message''"
  | "ty = JStr ''status''"
proof -
  have g: "\<And>r w p sb m st Q. (ty = r \<or> ty = w) \<and> (md = p \<or> md = sb) \<or> ty = m \<or> ty = st \<Longrightarrow>
    (ty = r \<Longrightarrow> md = p \<Longrightarrow> Q) \<Longrightarrow> (ty = r \<Longrightarrow> md = sb \<Longrightarrow> Q) \<Longrightarrow> (ty = w \<Longrightarrow> md = sb \<Longrightarrow> Q) \<Longrightarrow>
    (ty = w \<Longrightarrow> md = p \<Longrightarrow> Q) \<Longrightarrow> (ty = m \<Longrightarrow> Q) \<Longrightarrow> (ty = st \<Longrightarrow> Q) \<Longrightarrow> Q"
    by blast
  show ?thesis
    by (rule g [OF assms [unfolded routed_def]]) (rule that; assumption)+
qed

lemma register_producer_envD:
  assumes "register_producer_env t data"
  shows "process_message data c s = register_producer (json_of t) (case data of JObj d \<Rightarrow> dict_get d ''id'' | _ \<Rightarrow> JNull) c s"
proof (cases data)
  case (JObj d)
  with assms have "dict_get d ''type'' = JStr ''register''" "dict_get d ''mode'' = JStr ''producer''"
    "dict_get d ''topic'' = json_of t"
    by (simp_all add: register_producer_env_def)
  with JObj show ?thesis by (simp add: pm_register_producer del: process_message.simps)
qed (use assms in \<open>simp_all add: register_producer_env_def\<close>)

lemma created_neq:
  "msg_already_producer t \<noteq> msg_created t" "msg_name_taken t \<noteq> msg_created t"
  by (simp_all add: msg_already_producer_def msg_name_taken_def msg_created_def)

lemma register_producer_seq_present:
  assumes "\<forall>x \<in> set kko. register_producer_env t (snd x)"
    and "map_of (topics s) (py_key t) = Some info"
  shows "\<exists>s' rs. process_received_messages kko s = Inr s' \<and> kkw s' = kkw s @ rs \<and>
           topics s' = topics s \<and> length rs = length kko \<and>
           (\<forall>x \<in> set rs. snd x = msg_already_producer t \<or> snd x = msg_name_taken t)"
  using assms
proof (induction kko arbitrary: s)
  case Nil
  show ?case by simp
next
  case (Cons x kko)
  obtain c data where x: "x = (c, data)" by (cases x)
  from Cons.prems(1) x have env: "register_producer_env t data"
    and rest: "\<forall>x \<in> set kko. register_producer_env t (snd x)" by simp_all
  define m where "m = (if producer info = c then msg_already_producer t else msg_name_taken t)"
  define s1 where "s1 = kkw_put c m s"
  have step: "process_message data c s = Inr s1"
    unfolding register_producer_envD [OF env] s1_def m_def
    by (rule register_producer_present [OF Cons.prems(2)])
  have "map_of (topics s1) (py_key t) = Some info"
    using Cons.prems(2) by (simp add: s1_def)
  from Cons.IH [OF rest this] obtain s' rs where
    r: "process_received_messages kko s1 = Inr s'" "kkw s' = kkw s1 @ rs"
      "topics s' = topics s1" "length rs = length kko"
      "\<forall>x \<in> set rs. snd x = msg_already_producer t \<or> snd x = msg_name_taken t"
    by blast
  have "process_received_messages (x # kko) s = Inr s'"
    using step r(1) x by simp
  moreover have "kkw s' = kkw s @ ((c, m) # rs)"
    using r(2) by (simp add: s1_def)
  moreover have "topics s' = topics s"
    using r(3) by (simp add: s1_def)
  moreover have "length ((c, m) # rs) = length (x # kko)"
    using r(4) by simp
  moreover have "\<forall>x \<in> set ((c, m) # rs). snd x = msg_already_producer t \<or> snd x = msg_name_taken t"
    using r(5) by (simp add: m_def)
  ultimately show ?case by blast
qed

lemma filter_created_none:
  assumes "\<forall>x \<in> set rs. snd x = msg_already_producer t \<or> snd x = msg_name_taken t"
  shows "filter (\<lambda>x. snd x = msg_created t) rs = []"
  using assms created_neq [of t] by (auto simp: filter_empty_conv)

lemma register_producer_seq:
  assumes "\<forall>x \<in> set kko. register_producer_env t (snd x)"
  shows "\<exists>s' rs. process_received_messages kko s = Inr s' \<and> kkw s' = kkw s @ rs \<and>
           length rs = length kko \<and>
           length (filter (\<lambda>x. snd x = msg_created t) rs) \<le> 1 \<and>
           (\<forall>x \<in> set rs. snd x = msg_created t \<or> snd x = msg_already_producer t \<or>
                          snd x = msg_name_taken t)"
proof (cases "map_of (topics s) (py_key t)")
  case (Some info)
  from register_producer_seq_present [OF assms Some] obtain s' rs where
    r: "process_received_messages kko s = Inr s'" "kkw s' = kkw s @ rs" "length rs = length kko"
      "\<forall>x \<in> set rs. snd x = msg_already_producer t \<or> snd x = msg_name_taken t"
    by blast
  from filter_created_none [OF r(4)] have "length (filter (\<lambda>x. snd x = msg_created t) rs) \<le> 1"
    by simp
  with r show ?thesis by blast
next
  case None
  show ?thesis
  proof (cases kko)
    case Nil
    then show ?thesis by simp
  next
    case (Cons x rest)
    obtain c data where x: "x = (c, data)" by (cases x)
    from assms Cons x have env: "register_producer_env t data"
      and rest: "\<forall>x \<in> set rest. register_producer_env t (snd x)" by simp_all
    define i where "i = (case data of JObj d \<Rightarrow> dict_get d ''id'' | _ \<Rightarrow> JNull)"
    define info where "info = \<lparr>name = t, producer = c, producer_id = i, subscribers = []\<rparr>"
    define s1 where "s1 = kkw_put c (msg_created t) (s\<lparr>topics := topics s @ [(py_key t, info)]\<rparr>)"
    have step: "process_message data c s = Inr s1"
      unfolding register_producer_envD [OF env] s1_def info_def i_def
      by (rule register_producer_absent [OF None])
    have "map_of (topics s1) (py_key t) = Some info"
      using None by (simp add: s1_def map_add_def)
    from register_producer_seq_present [OF rest this] obtain s' rs where
      r: "process_received_messages rest s1 = Inr s'" "kkw s' = kkw s1 @ rs"
        "length rs = length rest"
        "\<forall>x \<in> set rs. snd x = msg_already_producer t \<or> snd x = msg_name_taken t"
      by blast
    have "process_received_messages kko s = Inr s'"
      using step r(1) x Cons by simp
    moreover have "kkw s' = kkw s @ ((c, msg_created t) # rs)"
      using r(2) by (simp add: s1_def)
    moreover have "length ((c, msg_created t) # rs) = length kko"
      using r(3) Cons by simp
    moreover have "length (filter (\<lambda>x. snd x = msg_created t) ((c, msg_created t) # rs)) \<le> 1"
      using filter_created_none [OF r(4)] by simp
    moreover have "\<forall>x \<in> set ((c, msg_created t) # rs). snd x = msg_created t \<or>
        snd x = msg_already_producer t \<or> snd x = msg_name_taken t"
      using r(4) by auto
    ultimately show ?thesis by blast
  qed
qed

lemma envelope_get:
  "dict_get [(''type'', ty), (''id'', i), (''topic'', tp), (''mode'', md), (''timestamp'', ts),
             (''payload'', p)] ''type'' = ty"
  "dict_get [(''type'', ty), (''id'', i), (''topic'', tp), (''mode'', md), (''timestamp'', ts),
             (''payload'', p)] ''id'' = i"
  "dict_get [(''type'', ty), (''id'', i), (''topic'', tp), (''mode'', md), (''timestamp'', ts),
             (''payload'', p)] ''topic'' = tp"
  "dict_get [(''type'', ty), (''id'', i), (''topic'', tp), (''mode'', md), (''timestamp'', ts),
             (''payload'', p)] ''mode'' = md"
  "dict_get [(''type'', ty), (''id'', i), (''topic'', tp), (''mode'', md), (''timestamp'', ts),
             (''payload'', p)] ''payload'' = p"
  by (simp_all add: dict_get_def)

lemma register_producer_env_envelope:
  "register_producer_env t (envelope ''register'' i (json_of t) ''producer'')"
  by (simp add: register_producer_env_def envelope_def envelope_get)

text \<open>
  C1. A run of register/producer envelopes on one topic name answers every envelope with
  one reply, at most one of which is the created reply. One call creates the topic with
  the caller as producer when the name is absent; when the name is present it answers
  already-producer to the producer and name-taken to anybody else, and leaves the server
  as it was up to that reply.
\<close>

theorem register_producer_created_once:
  assumes "\<forall>x \<in> set kko. register_producer_env t (snd x)"
  shows "(\<exists>s' rs. process_received_messages kko s = Inr s' \<and> kkw s' = kkw s @ rs \<and>
            length rs = length kko \<and>
            length (filter (\<lambda>x. snd x = msg_created t) rs) \<le> 1 \<and>
            (\<forall>x \<in> set rs. snd x = msg_created t \<or> snd x = msg_already_producer t \<or>
                           snd x = msg_name_taken t)) \<and>
         (map_of (topics s) (py_key t) = None \<longrightarrow>
            register_producer (json_of t) i c s =
              Inr (kkw_put c (msg_created t)
                (s\<lparr>topics := topics s @ [(py_key t,
                   \<lparr>name = t, producer = c, producer_id = i, subscribers = []\<rparr>)]\<rparr>))) \<and>
         (\<forall>info. map_of (topics s) (py_key t) = Some info \<longrightarrow>
            register_producer (json_of t) i c s =
              Inr (kkw_put c
                (if producer info = c then msg_already_producer t else msg_name_taken t) s))"
proof (intro conjI allI impI)
  show "\<exists>s' rs. process_received_messages kko s = Inr s' \<and> kkw s' = kkw s @ rs \<and>
            length rs = length kko \<and>
            length (filter (\<lambda>x. snd x = msg_created t) rs) \<le> 1 \<and>
            (\<forall>x \<in> set rs. snd x = msg_created t \<or> snd x = msg_already_producer t \<or>
                           snd x = msg_name_taken t)"
    by (rule register_producer_seq [OF assms])
qed (simp_all add: register_producer_absent register_producer_present)

theorem register_producer_created_once_witness:
  "\<exists>s' rs. process_received_messages
       [(1, envelope ''register'' ''id1'' (JStr ''temp'') ''producer''),
        (2, envelope ''register'' ''id2'' (JStr ''temp'') ''producer''),
        (1, envelope ''register'' ''id1'' (JStr ''temp'') ''producer'')] init_server = Inr s' \<and>
     kkw s' = kkw init_server @ rs \<and> length rs = 3 \<and>
     length (filter (\<lambda>x. snd x = msg_created (SStr ''temp'')) rs) \<le> 1"
proof -
  have e: "register_producer_env (SStr ''temp'') (envelope ''register'' i (JStr ''temp'') ''producer'')"
    for i
    using register_producer_env_envelope [of "SStr ''temp''" i] by simp
  have h: "\<forall>x \<in> set [(1::nat, envelope ''register'' ''id1'' (JStr ''temp'') ''producer''),
        (2, envelope ''register'' ''id2'' (JStr ''temp'') ''producer''),
        (1, envelope ''register'' ''id1'' (JStr ''temp'') ''producer'')].
      register_producer_env (SStr ''temp'') (snd x)"
    by (simp add: e)
  from register_producer_created_once [OF h, of init_server, THEN conjunct1]
  obtain s' rs where "process_received_messages
       [(1, envelope ''register'' ''id1'' (JStr ''temp'') ''producer''),
        (2, envelope ''register'' ''id2'' (JStr ''temp'') ''producer''),
        (1, envelope ''register'' ''id1'' (JStr ''temp'') ''producer'')] init_server = Inr s'"
    "kkw s' = kkw init_server @ rs"
    "length rs = length [(1::nat, envelope ''register'' ''id1'' (JStr ''temp'') ''producer''),
        (2, envelope ''register'' ''id2'' (JStr ''temp'') ''producer''),
        (1, envelope ''register'' ''id1'' (JStr ''temp'') ''producer'')]"
    "length (filter (\<lambda>x. snd x = msg_created (SStr ''temp'')) rs) \<le> 1"
    by (elim exE conjE)
  then show ?thesis by (intro exI conjI) simp_all
qed

text \<open>
  C2. When the producer of a topic withdraws it, the reply is the withdrawn text and the
  entry of the topic, with its subscriber list, leaves \<^verbatim>\<open>self.topics\<close> in that one step.
  From then on, and as long as the name is absent, a message or a register/subscriber
  envelope on that name from any socket is answered with the no-such-topic text and
  changes nothing else.
\<close>

theorem withdraw_producer_removes_topic:
  assumes "map_of (topics s) (py_key t) = Some info" and "producer info = c"
  shows "\<exists>s1. withdraw_producer (json_of t) c s = Inr s1 \<and>
           kkw s1 = kkw s @ [(c, msg_topic_withdrawn t)] \<and>
           topics s1 = AList.delete (py_key t) (topics s) \<and>
           map_of (topics s1) (py_key t) = None \<and>
           (\<forall>s2. map_of (topics s2) (py_key t) = None \<longrightarrow>
              (\<forall>c2 p. publish (json_of t) p c2 s2 = Inr (kkw_put c2 (msg_no_such_topic t) s2)) \<and>
              (\<forall>c2. register_subscriber (json_of t) c2 s2 =
                      Inr (kkw_put c2 (msg_no_such_topic t) s2)) \<and>
              (\<forall>c2 m. map_of (topics (kkw_put c2 m s2)) (py_key t) = None))"
proof -
  define s1 where
    "s1 = kkw_put c (msg_topic_withdrawn t) (s\<lparr>topics := AList.delete (py_key t) (topics s)\<rparr>)"
  have "withdraw_producer (json_of t) c s = Inr s1"
    unfolding s1_def by (rule withdraw_producer_removed [OF assms])
  moreover have "kkw s1 = kkw s @ [(c, msg_topic_withdrawn t)]"
    by (simp add: s1_def)
  moreover have "topics s1 = AList.delete (py_key t) (topics s)"
    by (simp add: s1_def)
  moreover have "map_of (topics s1) (py_key t) = None"
    by (simp add: s1_def)
  moreover have "\<forall>s2. map_of (topics s2) (py_key t) = None \<longrightarrow>
              (\<forall>c2 p. publish (json_of t) p c2 s2 = Inr (kkw_put c2 (msg_no_such_topic t) s2)) \<and>
              (\<forall>c2. register_subscriber (json_of t) c2 s2 =
                      Inr (kkw_put c2 (msg_no_such_topic t) s2)) \<and>
              (\<forall>c2 m. map_of (topics (kkw_put c2 m s2)) (py_key t) = None)"
    by (simp add: publish_absent register_subscriber_absent)
  ultimately show ?thesis by blast
qed

theorem withdraw_producer_removes_topic_witness:
  "\<exists>s1. withdraw_producer (JStr ''temp'') 1
       \<lparr>topics = [(SStr ''temp'', \<lparr>name = SStr ''temp'', producer = 1,
                     producer_id = JStr ''id1'', subscribers = [2, 3]\<rparr>)], kkw = []\<rparr> = Inr s1 \<and>
     topics s1 = [] \<and>
     publish (JStr ''temp'') (JObj []) 1 s1 = Inr (kkw_put 1 (msg_no_such_topic (SStr ''temp'')) s1) \<and>
     register_subscriber (JStr ''temp'') 4 s1 = Inr (kkw_put 4 (msg_no_such_topic (SStr ''temp'')) s1)"
proof -
  let ?info = "\<lparr>name = SStr ''temp'', producer = 1::nat, producer_id = JStr ''id1'',
                 subscribers = [2, 3::nat]\<rparr>"
  let ?s = "\<lparr>topics = [(SStr ''temp'', ?info)], kkw = []\<rparr>"
  have h1: "map_of (topics ?s) (py_key (SStr ''temp'')) = Some ?info" by simp
  have h2: "producer ?info = 1" by simp
  from withdraw_producer_removes_topic [OF h1 h2]
  obtain s1 where s1: "withdraw_producer (json_of (SStr ''temp'')) 1 ?s = Inr s1"
    "topics s1 = AList.delete (py_key (SStr ''temp'')) (topics ?s)"
    "map_of (topics s1) (py_key (SStr ''temp'')) = None"
    and after: "\<forall>s2. map_of (topics s2) (py_key (SStr ''temp'')) = None \<longrightarrow>
       (\<forall>c2 p. publish (json_of (SStr ''temp'')) p c2 s2 =
                 Inr (kkw_put c2 (msg_no_such_topic (SStr ''temp'')) s2)) \<and>
       (\<forall>c2. register_subscriber (json_of (SStr ''temp'')) c2 s2 =
                 Inr (kkw_put c2 (msg_no_such_topic (SStr ''temp'')) s2)) \<and>
       (\<forall>c2 m. map_of (topics (kkw_put c2 m s2)) (py_key (SStr ''temp'')) = None)"
    by (elim exE conjE)
  from after s1(3) have
    "publish (json_of (SStr ''temp'')) (JObj []) 1 s1 =
       Inr (kkw_put 1 (msg_no_such_topic (SStr ''temp'')) s1)"
    "register_subscriber (json_of (SStr ''temp'')) 4 s1 =
       Inr (kkw_put 4 (msg_no_such_topic (SStr ''temp'')) s1)"
    by blast+
  with s1(1,2) show ?thesis by (intro exI [of _ s1]) (simp add: AList.delete_eq)
qed

lemma registry_inv_init: "registry_inv init_server"
  by (simp add: registry_inv_def init_server_def)

lemma register_subscriber_twice:
  assumes "map_of (topics s) (py_key t) = Some info"
  shows "\<exists>s1 info1. register_subscriber (json_of t) c s = Inr s1 \<and>
           map_of (topics s1) (py_key t) = Some info1 \<and> c \<in> set (subscribers info1) \<and>
           register_subscriber (json_of t) c s1 = Inr (kkw_put c (msg_already_subscribed t) s1)"
proof (cases "c \<in> set (subscribers info)")
  case True
  let ?s1 = "kkw_put c (msg_already_subscribed t) s"
  have 1: "register_subscriber (json_of t) c s = Inr ?s1"
    by (rule register_subscriber_already [OF assms True])
  have 2: "map_of (topics ?s1) (py_key t) = Some info" using assms by simp
  from register_subscriber_already [OF 2 True] 1 2 True show ?thesis by blast
next
  case False
  let ?info1 = "info\<lparr>subscribers := subscribers info @ [c]\<rparr>"
  let ?s1 = "kkw_put c (msg_subscribed t)
       (s\<lparr>topics := AList.map_entry (py_key t)
          (\<lambda>i. i\<lparr>subscribers := subscribers i @ [c]\<rparr>) (topics s)\<rparr>)"
  have 1: "register_subscriber (json_of t) c s = Inr ?s1"
    by (rule register_subscriber_new [OF assms False])
  have 2: "map_of (topics ?s1) (py_key t) = Some ?info1"
    using assms by (simp add: AList.map_of_map_entry)
  have 3: "c \<in> set (subscribers ?info1)" by simp
  from register_subscriber_already [OF 2 3] 1 2 3 show ?thesis by blast
qed

text \<open>
  C3. The server after \<^verbatim>\<open>__init__\<close> satisfies the invariants of the registry, and
  \<^verbatim>\<open>process_message\<close> on any decoded value, a run of \<^verbatim>\<open>process_received_messages\<close> and
  \<^verbatim>\<open>handle_disconnection\<close> keep them: a topic name has one entry, hence one producer, and
  no socket is twice in a subscriber list. They hold for the server that
  \<^verbatim>\<open>handle_disconnection\<close> leaves behind whether it returns or a \<^verbatim>\<open>print\<close> ends it with an
  exception, whatever stdout can encode. A socket that registers as subscriber of an
  existing topic is in its subscriber list afterwards, and registering again is answered
  with the already-subscribed text and changes nothing but the outbound queue.
\<close>

theorem registry_invariants_preserved:
  "registry_inv init_server \<and>
   (registry_inv s \<longrightarrow>
      (\<forall>s'. process_message data c s = Inr s' \<longrightarrow> registry_inv s') \<and>
      (\<forall>s'. process_received_messages kko s = Inr s' \<longrightarrow> registry_inv s') \<and>
      registry_inv (snd (handle_disconnection can_print c s))) \<and>
   (\<forall>info. map_of (topics s) (py_key t) = Some info \<longrightarrow>
      (\<exists>s1 info1. register_subscriber (json_of t) c s = Inr s1 \<and>
         map_of (topics s1) (py_key t) = Some info1 \<and> c \<in> set (subscribers info1) \<and>
         (registry_inv s \<longrightarrow> distinct (subscribers info1)) \<and>
         register_subscriber (json_of t) c s1 = Inr (kkw_put c (msg_already_subscribed t) s1)))"
proof (intro conjI allI impI)
  show "registry_inv init_server" by (rule registry_inv_init)
next
  fix s' assume "registry_inv s" "process_message data c s = Inr s'"
  then show "registry_inv s'" by (rule process_message_inv)
next
  fix s' assume "registry_inv s" "process_received_messages kko s = Inr s'"
  then show "registry_inv s'" by (rule process_received_messages_inv)
next
  assume "registry_inv s"
  then show "registry_inv (snd (handle_disconnection can_print c s))" by (rule handle_disconnection_inv)
next
  fix info assume m: "map_of (topics s) (py_key t) = Some info"
  from register_subscriber_twice [OF m] obtain s1 info1 where
    r: "register_subscriber (json_of t) c s = Inr s1"
      "map_of (topics s1) (py_key t) = Some info1" "c \<in> set (subscribers info1)"
      "register_subscriber (json_of t) c s1 = Inr (kkw_put c (msg_already_subscribed t) s1)"
    by blast
  have "distinct (subscribers info1)" if "registry_inv s"
  proof -
    from register_subscriber_inv [OF that r(1)] have "registry_inv s1" .
    moreover from r(2) have "info1 \<in> snd ` set (topics s1)"
      by (force dest: map_of_SomeD)
    ultimately show ?thesis by (auto simp: registry_inv_def)
  qed
  with r show "\<exists>s1 info1. register_subscriber (json_of t) c s = Inr s1 \<and>
         map_of (topics s1) (py_key t) = Some info1 \<and> c \<in> set (subscribers info1) \<and>
         (registry_inv s \<longrightarrow> distinct (subscribers info1)) \<and>
         register_subscriber (json_of t) c s1 = Inr (kkw_put c (msg_already_subscribed t) s1)"
    by blast
qed

theorem registry_invariants_preserved_witness:
  "registry_inv \<lparr>topics = [(SStr ''temp'', \<lparr>name = SStr ''temp'', producer = 1,
                    producer_id = JStr ''id1'', subscribers = [2, 3]\<rparr>)], kkw = []\<rparr> \<and>
   registry_inv (snd (handle_disconnection utf8_stdout 2
     \<lparr>topics = [(SStr ''temp'', \<lparr>name = SStr ''temp'', producer = 1,
                    producer_id = JStr ''id1'', subscribers = [2, 3]\<rparr>)], kkw = []\<rparr>)) \<and>
   (\<exists>s1. register_subscriber (JStr ''temp'') 2
       \<lparr>topics = [(SStr ''temp'', \<lparr>name = SStr ''temp'', producer = 1,
                    producer_id = JStr ''id1'', subscribers = [2, 3]\<rparr>)], kkw = []\<rparr> = Inr s1 \<and>
     register_subscriber (JStr ''temp'') 2 s1 =
       Inr (kkw_put 2 (msg_already_subscribed (SStr ''temp'')) s1))"
proof -
  let ?info = "\<lparr>name = SStr ''temp'', producer = 1::nat, producer_id = JStr ''id1'',
                 subscribers = [2, 3::nat]\<rparr>"
  let ?s = "\<lparr>topics = [(SStr ''temp'', ?info)], kkw = []\<rparr>"
  have inv: "registry_inv ?s" by (simp add: registry_inv_def)
  have m: "map_of (topics ?s) (py_key (SStr ''temp'')) = Some ?info" by simp
  note inst = registry_invariants_preserved [where s = ?s and data = JNull and c = 2
      and kko = "[]" and can_print = utf8_stdout and t = "SStr ''temp''"]
  from inst inv have a: "registry_inv (snd (handle_disconnection utf8_stdout 2 ?s))" by blast
  from inst m obtain s1 where
    "register_subscriber (json_of (SStr ''temp'')) 2 ?s = Inr s1"
    "register_subscriber (json_of (SStr ''temp'')) 2 s1 =
       Inr (kkw_put 2 (msg_already_subscribed (SStr ''temp'')) s1)"
    by blast
  then have b: "\<exists>s1. register_subscriber (JStr ''temp'') 2 ?s = Inr s1 \<and>
     register_subscriber (JStr ''temp'') 2 s1 =
       Inr (kkw_put 2 (msg_already_subscribed (SStr ''temp'')) s1)"
    by (intro exI [of _ s1]) simp
  from inv a b show ?thesis by (intro conjI)
qed

text \<open>
  C4. A message envelope never changes \<^verbatim>\<open>self.topics\<close>. Sent by the producer of the topic it
  puts one item per subscriber in the outbound queue, each the object with the topic and the
  payload of the envelope; sent by anybody else on an existing topic it puts the
  not-a-producer text for the sender and nothing for any subscriber; on an absent topic it
  puts the no-such-topic text for the sender.
\<close>

theorem publish_frame:
  "(\<forall>s'. publish topic payload c s = Inr s' \<longrightarrow> topics s' = topics s) \<and>
   (\<forall>info. map_of (topics s) (py_key t) = Some info \<and> producer info = c \<longrightarrow>
      publish (json_of t) payload c s =
        Inr (s\<lparr>kkw := kkw s @
           map (\<lambda>sub. (sub, Json (JObj [(''topic'', json_of t), (''payload'', payload)])))
             (subscribers info)\<rparr>)) \<and>
   (\<forall>info. map_of (topics s) (py_key t) = Some info \<and> producer info \<noteq> c \<longrightarrow>
      publish (json_of t) payload c s = Inr (kkw_put c (msg_not_producer t) s)) \<and>
   (map_of (topics s) (py_key t) = None \<longrightarrow>
      publish (json_of t) payload c s = Inr (kkw_put c (msg_no_such_topic t) s)) \<and>
   (dict_get d ''type'' = JStr ''message'' \<longrightarrow>
      process_message (JObj d) c s = publish (dict_get d ''topic'') (dict_get d ''payload'') c s)"
  by (intro conjI allI impI)
     (simp_all add: publish_topics publish_delivered publish_not publish_absent pm_message
        del: process_message.simps)

theorem publish_frame_witness:
  "publish (JStr ''temp'') (JInt 21) 1
     \<lparr>topics = [(SStr ''temp'', \<lparr>name = SStr ''temp'', producer = 1,
                   producer_id = JStr ''id1'', subscribers = [2, 3]\<rparr>)], kkw = []\<rparr> =
   Inr \<lparr>topics = [(SStr ''temp'', \<lparr>name = SStr ''temp'', producer = 1,
                   producer_id = JStr ''id1'', subscribers = [2, 3]\<rparr>)],
        kkw = [(2, Json (JObj [(''topic'', JStr ''temp''), (''payload'', JInt 21)])),
               (3, Json (JObj [(''topic'', JStr ''temp''), (''payload'', JInt 21)]))]\<rparr> \<and>
   publish (JStr ''temp'') (JInt 21) 5
     \<lparr>topics = [(SStr ''temp'', \<lparr>name = SStr ''temp'', producer = 1,
                   producer_id = JStr ''id1'', subscribers = [2, 3]\<rparr>)], kkw = []\<rparr> =
   Inr \<lparr>topics = [(SStr ''temp'', \<lparr>name = SStr ''temp'', producer = 1,
                   producer_id = JStr ''id1'', subscribers = [2, 3]\<rparr>)],
        kkw = [(5, Text ''You are not a producer of topic temp.'')]\<rparr>"
proof -
  let ?info = "\<lparr>name = SStr ''temp'', producer = 1::nat, producer_id = JStr ''id1'',
                 subscribers = [2, 3::nat]\<rparr>"
  let ?s = "\<lparr>topics = [(SStr ''temp'', ?info)], kkw = []\<rparr>"
  have h: "map_of (topics ?s) (py_key (SStr ''temp'')) = Some ?info" by simp
  from publish_frame [of "JStr ''temp''" "JInt 21" 1 ?s "SStr ''temp''"] h
  have a: "publish (json_of (SStr ''temp'')) (JInt 21) 1 ?s =
        Inr (?s\<lparr>kkw := kkw ?s @
           map (\<lambda>sub. (sub, Json (JObj [(''topic'', json_of (SStr ''temp'')), (''payload'', JInt 21)])))
             (subscribers ?info)\<rparr>)"
    by simp
  from publish_frame [of "JStr ''temp''" "JInt 21" 5 ?s "SStr ''temp''"] h
  have b: "publish (json_of (SStr ''temp'')) (JInt 21) 5 ?s =
        Inr (kkw_put 5 (msg_not_producer (SStr ''temp'')) ?s)"
    by simp
  from a b show ?thesis by (simp add: kkw_put_def msg_not_producer_def)
qed

lemma msg_neq_unknown:
  "msg_already_producer t \<noteq> msg_unknown" "msg_name_taken t \<noteq> msg_unknown"
  "msg_created t \<noteq> msg_unknown" "msg_already_subscribed t \<noteq> msg_unknown"
  "msg_subscribed t \<noteq> msg_unknown" "msg_no_such_topic t \<noteq> msg_unknown"
  "msg_subscription_withdrawn t \<noteq> msg_unknown" "msg_not_subscriber t \<noteq> msg_unknown"
  "msg_topic_withdrawn t \<noteq> msg_unknown" "msg_not_producer t \<noteq> msg_unknown"
  by (simp_all add: msg_already_producer_def msg_name_taken_def msg_created_def
      msg_already_subscribed_def msg_subscribed_def msg_no_such_topic_def
      msg_subscription_withdrawn_def msg_not_subscriber_def msg_topic_withdrawn_def
      msg_not_producer_def msg_unknown_def)

lemma json_neq_unknown: "Json v \<noteq> msg_unknown" "msg_unknown \<noteq> Json v"
  by (simp_all add: msg_unknown_def)

lemma no_unknown_put: "m \<noteq> msg_unknown \<Longrightarrow> topics s1 = ts \<Longrightarrow> kkw s1 = kkw s \<Longrightarrow>
    no_unknown c s (Inr (kkw_put c m s1))"
  by (simp add: no_unknown_def)

lemma no_unknown_Inl: "no_unknown c s (Inl e)"
  by (simp add: no_unknown_def)

lemma no_unknown_ops:
  "no_unknown c s (register_producer topic i c s)"
  "no_unknown c s (register_subscriber topic c s)"
  "no_unknown c s (withdraw_subscriber topic c s)"
  "no_unknown c s (withdraw_producer topic c s)"
  "no_unknown c s (publish topic p c s)"
  "no_unknown c s (Inr (snapshot_status d c s))"
  by (auto simp: register_producer_def register_subscriber_def withdraw_subscriber_def
      withdraw_producer_def publish_def snapshot_status_def no_unknown_def msg_neq_unknown
      msg_neq_unknown [symmetric] json_neq_unknown split: option.splits)

lemma no_unknownD:
  assumes "no_unknown c s r"
  shows "r \<noteq> Inr (kkw_put c msg_unknown s)"
proof
  assume "r = Inr (kkw_put c msg_unknown s)"
  with assms obtain xs where "kkw (kkw_put c msg_unknown s) = kkw s @ xs"
    "(c, msg_unknown) \<notin> set xs"
    unfolding no_unknown_def by blast
  then show False by auto
qed

lemma routed_no_unknown:
  assumes "routed (dict_get d ''type'') (dict_get d ''mode'')"
  shows "no_unknown c s (process_message (JObj d) c s)"
  using assms
proof (cases rule: routed_cases)
  case 1
  then show ?thesis unfolding pm_register_producer [OF 1] by (simp add: no_unknown_ops)
next
  case 2
  then show ?thesis unfolding pm_register_subscriber [OF 2] by (simp add: no_unknown_ops)
next
  case 3
  then show ?thesis unfolding pm_withdraw_subscriber [OF 3] by (simp add: no_unknown_ops)
next
  case 4
  then show ?thesis unfolding pm_withdraw_producer [OF 4] by (simp add: no_unknown_ops)
next
  case 5
  then show ?thesis unfolding pm_message [OF 5] by (simp add: no_unknown_ops)
next
  case 6
  then show ?thesis unfolding pm_status [OF 6] by (simp add: no_unknown_ops)
qed

lemma routed_generic:
  assumes "ty \<in> {r, w, m, st}" and "ty = st \<or> md \<in> {p, sb}"
  shows "(JStr ty = JStr r \<or> JStr ty = JStr w) \<and> (JStr md = JStr p \<or> JStr md = JStr sb) \<or>
         JStr ty = JStr m \<or> JStr ty = JStr st"
  using assms by auto

lemma validated_routed:
  assumes "validate_kom parses (JObj d)"
  shows "routed (dict_get d ''type'') (dict_get d ''mode'')"
proof -
  from assms [unfolded validate_kom_obj] obtain ty where
    ty: "map_of d ''type'' = Some (JStr ty)"
      "ty \<in> {''register'', ''withdraw'', ''message'', ''status''}"
    and md: "ty = ''status'' \<or>
       (\<exists>md. map_of d ''mode'' = Some (JStr md) \<and> md \<in> {''producer'', ''subscriber''})"
    by (elim conjE exE)
  have t: "dict_get d ''type'' = JStr ty" using ty(1) by (simp only: dict_get_def option.case)
  show ?thesis
  proof (cases "ty = ''status''")
    case True
    with t show ?thesis by (simp only: routed_def simp_thms)
  next
    case False
    with md obtain m where m: "map_of d ''mode'' = Some (JStr m)"
      "m \<in> {''producer'', ''subscriber''}" by blast
    have "dict_get d ''mode'' = JStr m" using m(1) by (simp only: dict_get_def option.case)
    with t routed_generic [OF ty(2), of m "''producer''" "''subscriber''"] m(2)
    show ?thesis unfolding routed_def by (simp only: simp_thms)
  qed
qed

text \<open>
  C5, as the code has it. \<^verbatim>\<open>process_message\<close> routes a dict by type and mode: register and
  withdraw with mode producer or subscriber go to their four registry operations, a message
  goes to the publish operation whatever its mode, and status goes to the status reply
  whatever its mode. A dict with any other pair is answered with exactly the
  unknown-message-type text. Every validated envelope is routed, and a routed envelope is
  never answered with the unknown-message-type text.
\<close>

theorem routing_table:
  "(dict_get d ''type'' = JStr ''register'' \<and> dict_get d ''mode'' = JStr ''producer'' \<longrightarrow>
      process_message (JObj d) c s =
        register_producer (dict_get d ''topic'') (dict_get d ''id'') c s) \<and>
   (dict_get d ''type'' = JStr ''register'' \<and> dict_get d ''mode'' = JStr ''subscriber'' \<longrightarrow>
      process_message (JObj d) c s = register_subscriber (dict_get d ''topic'') c s) \<and>
   (dict_get d ''type'' = JStr ''withdraw'' \<and> dict_get d ''mode'' = JStr ''producer'' \<longrightarrow>
      process_message (JObj d) c s = withdraw_producer (dict_get d ''topic'') c s) \<and>
   (dict_get d ''type'' = JStr ''withdraw'' \<and> dict_get d ''mode'' = JStr ''subscriber'' \<longrightarrow>
      process_message (JObj d) c s = withdraw_subscriber (dict_get d ''topic'') c s) \<and>
   (dict_get d ''type'' = JStr ''message'' \<longrightarrow>
      process_message (JObj d) c s =
        publish (dict_get d ''topic'') (dict_get d ''payload'') c s) \<and>
   (dict_get d ''type'' = JStr ''status'' \<longrightarrow>
      process_message (JObj d) c s = Inr (snapshot_status d c s)) \<and>
   (\<not> routed (dict_get d ''type'') (dict_get d ''mode'') \<longrightarrow>
      process_message (JObj d) c s = Inr (kkw_put c msg_unknown s)) \<and>
   (routed (dict_get d ''type'') (dict_get d ''mode'') \<longrightarrow>
      process_message (JObj d) c s \<noteq> Inr (kkw_put c msg_unknown s)) \<and>
   (validate_kom parses (JObj d) \<longrightarrow> routed (dict_get d ''type'') (dict_get d ''mode''))"
proof (intro conjI impI)
  assume "routed (dict_get d ''type'') (dict_get d ''mode'')"
  then show "process_message (JObj d) c s \<noteq> Inr (kkw_put c msg_unknown s)"
    by (intro no_unknownD routed_no_unknown)
next
  assume "validate_kom parses (JObj d)"
  then show "routed (dict_get d ''type'') (dict_get d ''mode'')" by (rule validated_routed)
next
  assume "\<not> routed (dict_get d ''type'') (dict_get d ''mode'')"
  then show "process_message (JObj d) c s = Inr (kkw_put c msg_unknown s)" by (rule pm_unknown)
next
  assume "dict_get d ''type'' = JStr ''register'' \<and> dict_get d ''mode'' = JStr ''producer''"
  then show "process_message (JObj d) c s =
        register_producer (dict_get d ''topic'') (dict_get d ''id'') c s"
    by (intro pm_register_producer) blast+
next
  assume "dict_get d ''type'' = JStr ''register'' \<and> dict_get d ''mode'' = JStr ''subscriber''"
  then show "process_message (JObj d) c s = register_subscriber (dict_get d ''topic'') c s"
    by (intro pm_register_subscriber) blast+
next
  assume "dict_get d ''type'' = JStr ''withdraw'' \<and> dict_get d ''mode'' = JStr ''producer''"
  then show "process_message (JObj d) c s = withdraw_producer (dict_get d ''topic'') c s"
    by (intro pm_withdraw_producer) blast+
next
  assume "dict_get d ''type'' = JStr ''withdraw'' \<and> dict_get d ''mode'' = JStr ''subscriber''"
  then show "process_message (JObj d) c s = withdraw_subscriber (dict_get d ''topic'') c s"
    by (intro pm_withdraw_subscriber) blast+
next
  assume "dict_get d ''type'' = JStr ''message''"
  then show "process_message (JObj d) c s =
        publish (dict_get d ''topic'') (dict_get d ''payload'') c s"
    by (rule pm_message)
next
  assume "dict_get d ''type'' = JStr ''status''"
  then show "process_message (JObj d) c s = Inr (snapshot_status d c s)" by (rule pm_status)
qed

theorem routing_table_witness:
  "process_message (envelope ''message'' ''id1'' (JStr ''temp'') ''subscriber'') 1 init_server =
     publish (JStr ''temp'') (JObj []) 1 init_server \<and>
   process_message (envelope ''publish'' ''id1'' (JStr ''temp'') ''producer'') 1 init_server =
     Inr (kkw_put 1 msg_unknown init_server)"
proof -
  let ?d = "\<lambda>ty md. [(''type'', JStr ty), (''id'', JStr ''id1''), (''topic'', JStr ''temp''),
             (''mode'', JStr md), (''timestamp'', JStr ''2024-01-01T00:00:00''),
             (''payload'', JObj [])]"
  have h: "dict_get (?d ''message'' ''subscriber'') ''type'' = JStr ''message''"
    by (simp add: envelope_get)
  have n: "\<not> routed (dict_get (?d ''publish'' ''producer'') ''type'')
               (dict_get (?d ''publish'' ''producer'') ''mode'')"
    by (simp add: envelope_get routed_def)
  from routing_table [of "?d ''message'' ''subscriber''" 1 init_server] h
  have a: "process_message (JObj (?d ''message'' ''subscriber'')) 1 init_server =
      publish (dict_get (?d ''message'' ''subscriber'') ''topic'')
        (dict_get (?d ''message'' ''subscriber'') ''payload'') 1 init_server"
    by blast
  from routing_table [of "?d ''publish'' ''producer''" 1 init_server] n
  have b: "process_message (JObj (?d ''publish'' ''producer'')) 1 init_server =
      Inr (kkw_put 1 msg_unknown init_server)"
    by blast
  from a b show ?thesis
    unfolding envelope_def by (simp only: envelope_get simp_thms)
qed

text \<open>
  C5 as the specification states it fails: the envelope of type message and mode subscriber
  passes validation, its pair is none of the six rows of the table, and it is answered by
  the publish operation (here with the no-such-topic text), not with the
  unknown-message-type text.
\<close>

theorem routing_message_subscriber_counterexample:
  "validate_kom ((=) ''2024-01-01T00:00:00'')
     (envelope ''message'' ''id1'' (JStr ''temp'') ''subscriber'') \<and>
   process_message (envelope ''message'' ''id1'' (JStr ''temp'') ''subscriber'') 1 init_server =
     Inr (kkw_put 1 (msg_no_such_topic (SStr ''temp'')) init_server) \<and>
   process_message (envelope ''message'' ''id1'' (JStr ''temp'') ''subscriber'') 1 init_server \<noteq>
     Inr (kkw_put 1 msg_unknown init_server)"
proof -
  have v: "validate_kom ((=) ''2024-01-01T00:00:00'')
     (envelope ''message'' ''id1'' (JStr ''temp'') ''subscriber'')"
    unfolding envelope_def by (simp add: validate_kom_obj required_keys_def)
  have p: "process_message (envelope ''message'' ''id1'' (JStr ''temp'') ''subscriber'') 1
      init_server = publish (json_of (SStr ''temp'')) (JObj []) 1 init_server"
    unfolding envelope_def
    by (simp add: pm_message envelope_get del: process_message.simps)
  have a: "map_of (topics init_server) (py_key (SStr ''temp'')) = None"
    by (simp add: init_server_def)
  have r: "process_message (envelope ''message'' ''id1'' (JStr ''temp'') ''subscriber'') 1
      init_server = Inr (kkw_put 1 (msg_no_such_topic (SStr ''temp'')) init_server)"
    unfolding p by (rule publish_absent [OF a])
  have "kkw_put 1 (msg_no_such_topic (SStr ''temp'')) init_server \<noteq>
      kkw_put 1 msg_unknown init_server"
    using msg_neq_unknown(6) [of "SStr ''temp''"] by (auto simp: kkw_put_def dest: arg_cong [where f = kkw])
  with v r show ?thesis by simp
qed

text \<open>
  Disconnection when every line can be printed: \<^verbatim>\<open>handle_disconnection\<close> returns, and what
  it leaves is the cleanup in the words of the specification.
\<close>

lemma producer_drop_conn [simp]: "producer (drop_conn c info) = producer info"
  by (simp add: drop_conn_def)

lemma subscribers_drop_conn [simp]:
  "subscribers (drop_conn c info) = remove1 c (subscribers info)"
  by (simp add: drop_conn_def)

lemma name_drop_conn [simp]: "name (drop_conn c info) = name info"
  by (simp add: drop_conn_def)

lemma drop_conn_absent: "c \<notin> set (subscribers info) \<Longrightarrow> drop_conn c info = info"
  by (simp add: drop_conn_def remove1_idem)

lemma key_removed_iff:
  assumes "distinct (map fst xs)" and "(k, info) \<in> set xs"
  shows "k \<in> set (map fst (filter (\<lambda>(topic, info). producer info = c) xs)) \<longleftrightarrow> producer info = c"
proof
  assume "k \<in> set (map fst (filter (\<lambda>(topic, info). producer info = c) xs))"
  then obtain info' where i: "(k, info') \<in> set xs" "producer info' = c" by auto
  from assms i(1) have "info' = info" by (meson eq_key_imp_eq_value)
  with i(2) show "producer info = c" by simp
next
  assume "producer info = c"
  with assms(2) show "k \<in> set (map fst (filter (\<lambda>(topic, info). producer info = c) xs))"
    by force
qed

lemma map_entry_fresh:
  "k \<notin> fst ` set pre \<Longrightarrow> AList.map_entry k f (pre @ (k, v) # xs) = pre @ (k, f v) # xs"
  by (induction pre) auto

lemma collect_topics_printable:
  assumes "\<forall>info \<in> snd ` set items.
             can_print (log_producer_gone (name info)) \<and> can_print (log_subscriber_gone (name info))"
    and "distinct (map fst (pre @ items))"
  shows "collect_topics can_print c items rm (pre @ items) =
     (None,
      rm @ map (\<lambda>(k, info). (k, name info)) (filter (\<lambda>(k, info). producer info = c) items),
      pre @ map (\<lambda>(k, info). (k, drop_conn c info)) items)"
  using assms
proof (induction items arbitrary: pre rm)
  case Nil
  show ?case by simp
next
  case (Cons x items)
  obtain k info where x: "x = (k, info)" by (cases x)
  let ?rm = "if producer info = c then rm @ [(k, name info)] else rm"
  let ?pre = "pre @ [(k, drop_conn c info)]"
  from Cons.prems(1) have p: "can_print (log_producer_gone (name info))"
      "can_print (log_subscriber_gone (name info))"
    and rest: "\<forall>info \<in> snd ` set items.
             can_print (log_producer_gone (name info)) \<and> can_print (log_subscriber_gone (name info))"
    unfolding x by simp_all
  from Cons.prems(2) have fresh: "k \<notin> fst ` set pre" and d: "distinct (map fst (?pre @ items))"
    unfolding x by auto
  have step: "collect_topics can_print c (x # items) rm (pre @ x # items) =
      collect_topics can_print c items ?rm (?pre @ items)"
  proof (cases "c \<in> set (subscribers info)")
    case True
    have "AList.map_entry k (\<lambda>i. i\<lparr>subscribers := remove1 c (subscribers i)\<rparr>)
            (pre @ (k, info) # items) = ?pre @ items"
      by (simp add: map_entry_fresh [OF fresh] drop_conn_def)
    moreover have "map_of (pre @ (k, info) # items) k \<noteq> None"
      by (simp add: map_of_eq_None_iff)
    ultimately show ?thesis using True p unfolding x by (simp add: Let_def)
  next
    case False
    then have "drop_conn c info = info" by (rule drop_conn_absent)
    with False p show ?thesis unfolding x by (simp add: Let_def)
  qed
  also have "\<dots> = (None,
      ?rm @ map (\<lambda>(k, info). (k, name info)) (filter (\<lambda>(k, info). producer info = c) items),
      ?pre @ map (\<lambda>(k, info). (k, drop_conn c info)) items)"
    using rest d by (rule Cons.IH)
  finally show ?case unfolding x by simp
qed

lemma delete_topics_printable:
  assumes "\<forall>n \<in> snd ` set rm. can_print (log_topic_removed n)"
    and "distinct (map fst rm)" and "fst ` set rm \<subseteq> fst ` set ts"
  shows "delete_topics can_print rm ts = (None, filter (\<lambda>(k, v). k \<notin> fst ` set rm) ts)"
  using assms
proof (induction rm arbitrary: ts)
  case Nil
  show ?case by simp
next
  case (Cons x rm)
  obtain k n where x: "x = (k, n)" by (cases x)
  from Cons.prems(1) have p: "can_print (log_topic_removed n)"
    and rest: "\<forall>n \<in> snd ` set rm. can_print (log_topic_removed n)"
    unfolding x by simp_all
  from Cons.prems(2) have fresh: "k \<notin> fst ` set rm" and d: "distinct (map fst rm)"
    unfolding x by auto
  from Cons.prems(3) have "k \<in> fst ` set ts" unfolding x by simp
  then have present: "map_of ts k \<noteq> None" by (simp add: map_of_eq_None_iff)
  have sub: "fst ` set rm \<subseteq> fst ` set (AList.delete k ts)"
    using Cons.prems(3) fresh unfolding x by (auto simp: AList.delete_eq) force
  from present obtain v where "map_of ts k = Some v" by auto
  with p have "delete_topics can_print (x # rm) ts = delete_topics can_print rm (AList.delete k ts)"
    unfolding x by simp
  also have "\<dots> = (None, filter (\<lambda>(k, v). k \<notin> fst ` set rm) (AList.delete k ts))"
    using rest d sub by (rule Cons.IH)
  also have "filter (\<lambda>(k, v). k \<notin> fst ` set rm) (AList.delete k ts) =
      filter (\<lambda>(k', v). k' \<notin> fst ` set (x # rm)) ts"
    unfolding x by (auto simp: AList.delete_eq intro: filter_cong)
  finally show ?case .
qed

lemma handle_disconnection_printable:
  assumes "registry_inv s" and "printable can_print s"
  shows "handle_disconnection can_print c s = (None, on_disconnect c s)"
proof -
  let ?P = "\<lambda>(k, info). producer info = c"
  let ?g = "\<lambda>(k, info). (k, drop_conn c info)"
  let ?rm = "map (\<lambda>(k, info). (k, name info)) (filter ?P (topics s))"
  from assms(1) have d: "distinct (map fst (topics s))" by (simp add: registry_inv_def)
  have keys: "map fst ?rm = map fst (filter ?P (topics s))"
    by (simp add: case_prod_unfold comp_def)
  have 1: "collect_topics can_print c (topics s) [] (topics s) = (None, ?rm, map ?g (topics s))"
    using collect_topics_printable [of "topics s" can_print "[]" c "[]"] assms(2) d
    by (simp add: printable_def)
  have a: "\<forall>n \<in> snd ` set ?rm. can_print (log_topic_removed n)"
    using assms(2) by (force simp: printable_def)
  have b: "distinct (map fst ?rm)"
    unfolding keys using d by (rule distinct_map_filter)
  have c: "fst ` set ?rm \<subseteq> fst ` set (map ?g (topics s))" by force
  have 2: "delete_topics can_print ?rm (map ?g (topics s)) =
      (None, filter (\<lambda>(k, v). k \<notin> fst ` set ?rm) (map ?g (topics s)))"
    using a b c by (rule delete_topics_printable)
  have "filter (\<lambda>(k, v). k \<notin> fst ` set ?rm) (map ?g (topics s)) =
      map ?g (filter ((\<lambda>(k, v). k \<notin> fst ` set ?rm) \<circ> ?g) (topics s))"
    by (simp only: filter_map)
  also have "filter ((\<lambda>(k, v). k \<notin> fst ` set ?rm) \<circ> ?g) (topics s) =
      filter (\<lambda>(k, info). producer info \<noteq> c) (topics s)"
  proof (rule filter_cong [OF refl])
    fix x assume x: "x \<in> set (topics s)"
    obtain k info where kx: "x = (k, info)" by (cases x)
    have "fst ` set ?rm = set (map fst (filter ?P (topics s)))"
      by (simp only: keys [symmetric] set_map)
    with key_removed_iff [OF d, of k info c] x kx
    show "((\<lambda>(k, v). k \<notin> fst ` set ?rm) \<circ> ?g) x = (case x of (k, info) \<Rightarrow> producer info \<noteq> c)"
      by simp
  qed
  finally have 3: "filter (\<lambda>(k, v). k \<notin> fst ` set ?rm) (map ?g (topics s)) =
      map ?g (filter (\<lambda>(k, info). producer info \<noteq> c) (topics s))" .
  have "handle_disconnection can_print c s =
      (case delete_topics can_print ?rm (map ?g (topics s)) of (r, ts') \<Rightarrow> (r, s\<lparr>topics := ts'\<rparr>))"
    by (simp only: handle_disconnection_def 1 prod.case option.case)
  also have "\<dots> = (None, s\<lparr>topics := filter (\<lambda>(k, v). k \<notin> fst ` set ?rm) (map ?g (topics s))\<rparr>)"
    by (simp only: 2 prod.case)
  also have "\<dots> = (None, on_disconnect c s)"
    by (simp only: 3 on_disconnect_def)
  finally show ?thesis .
qed

lemma on_disconnect_inv:
  assumes "registry_inv s"
  shows "registry_inv (on_disconnect c s)"
proof -
  from assms have d: "distinct (map fst (topics s))"
    and b: "\<forall>v \<in> snd ` set (topics s). distinct (subscribers v)"
    by (simp_all add: registry_inv_def)
  have keys: "map fst (topics (on_disconnect c s)) =
      map fst (filter (\<lambda>(k, info). producer info \<noteq> c) (topics s))"
    by (simp add: on_disconnect_def case_prod_unfold comp_def)
  have "distinct (map fst (filter (\<lambda>(k, info). producer info \<noteq> c) (topics s)))"
    using d by (rule distinct_map_filter)
  with keys have "distinct (map fst (topics (on_disconnect c s)))" by simp
  moreover have "\<forall>v \<in> snd ` set (topics (on_disconnect c s)). distinct (subscribers v)"
    using b by (auto simp: on_disconnect_def)
  ultimately show ?thesis by (simp add: registry_inv_def)
qed

lemma on_disconnect_gone:
  assumes "registry_inv s"
  shows "\<forall>info \<in> snd ` set (topics (on_disconnect c s)).
           producer info \<noteq> c \<and> c \<notin> set (subscribers info)"
proof -
  from assms have b: "\<forall>v \<in> snd ` set (topics s). distinct (subscribers v)"
    by (simp add: registry_inv_def)
  then show ?thesis by (auto simp: on_disconnect_def)
qed

lemma on_disconnect_fixed:
  assumes "\<forall>info \<in> snd ` set (topics s). producer info \<noteq> c \<and> c \<notin> set (subscribers info)"
  shows "on_disconnect c s = s"
proof -
  have f: "filter (\<lambda>(k, info). producer info \<noteq> c) (topics s) = topics s"
    using assms by (intro filter_True) auto
  have m: "map (\<lambda>(k, info). (k, drop_conn c info)) (topics s) = topics s"
    using assms by (intro map_idI) (auto simp: drop_conn_absent)
  show ?thesis unfolding on_disconnect_def f m by simp
qed

lemma on_disconnect_idem:
  assumes "registry_inv s"
  shows "on_disconnect c (on_disconnect c s) = on_disconnect c s"
  by (rule on_disconnect_fixed) (rule on_disconnect_gone [OF assms])

lemma on_disconnect_printable:
  assumes "printable can_print s"
  shows "printable can_print (on_disconnect c s)"
  using assms by (auto simp: printable_def on_disconnect_def)

lemma handle_disconnection_returns_cleanup:
  assumes "registry_inv s" and "printable can_print s"
  shows "handle_disconnection can_print c s = (None, on_disconnect c s) \<and>
         (\<forall>info \<in> snd ` set (topics (on_disconnect c s)).
            producer info \<noteq> c \<and> c \<notin> set (subscribers info)) \<and>
         handle_disconnection can_print c (on_disconnect c s) = (None, on_disconnect c s)"
proof (intro conjI)
  show "handle_disconnection can_print c s = (None, on_disconnect c s)"
    using assms by (rule handle_disconnection_printable)
  show "\<forall>info \<in> snd ` set (topics (on_disconnect c s)).
            producer info \<noteq> c \<and> c \<notin> set (subscribers info)"
    using assms(1) by (rule on_disconnect_gone)
  have "handle_disconnection can_print c (on_disconnect c s) =
      (None, on_disconnect c (on_disconnect c s))"
    using on_disconnect_inv [OF assms(1)] on_disconnect_printable [OF assms(2)]
    by (rule handle_disconnection_printable)
  then show "handle_disconnection can_print c (on_disconnect c s) = (None, on_disconnect c s)"
    by (simp only: on_disconnect_idem [OF assms(1)])
qed

text \<open>
  Disconnection of a producer when stdout cannot encode the first line for one of its
  topics: \<^verbatim>\<open>print\<close> raises in the first loop, which deletes nothing, so every topic of the
  registry is still there.
\<close>

lemma map_fst_map_entry: "map fst (AList.map_entry k f xs) = map fst xs"
  by (induction xs) auto

lemma collect_topics_keys:
  assumes "collect_topics can_print c items rm ts = (r, rm', ts')"
  shows "map fst ts' = map fst ts"
  using assms
proof (induction items arbitrary: rm ts)
  case Nil
  then show ?case by simp
next
  case (Cons x items)
  obtain k info where x: "x = (k, info)" by (cases x)
  let ?rm = "if producer info = c then rm @ [(k, name info)] else rm"
  let ?ts = "AList.map_entry k (\<lambda>i. i\<lparr>subscribers := remove1 c (subscribers i)\<rparr>) ts"
  from Cons.prems consider
      (raised) "ts' = ts"
    | (removed) "collect_topics can_print c items ?rm ?ts = (r, rm', ts')"
    | (kept) "collect_topics can_print c items ?rm ts = (r, rm', ts')"
    unfolding x by (simp add: Let_def split: if_splits)
  then show ?case
  proof cases
    case raised
    then show ?thesis by simp
  next
    case removed
    from Cons.IH [OF removed] show ?thesis by (simp add: map_fst_map_entry)
  next
    case kept
    then show ?thesis by (rule Cons.IH)
  qed
qed

lemma collect_topics_raises:
  assumes "(k, info) \<in> set items" and "producer info = c"
    and "\<not> can_print (log_producer_gone (name info))"
    and "fst ` set items \<subseteq> fst ` set ts"
  shows "fst (collect_topics can_print c items rm ts) = Some UnicodeEncodeError"
  using assms(1,4)
proof (induction items arbitrary: rm ts)
  case Nil
  then show ?case by simp
next
  case (Cons x items)
  obtain k' info' where x: "x = (k', info')" by (cases x)
  from Cons.prems(2) have "k' \<in> fst ` set ts" and sub: "fst ` set items \<subseteq> fst ` set ts"
    unfolding x by simp_all
  then have present: "map_of ts k' \<noteq> None" by (simp add: map_of_eq_None_iff)
  show ?case
  proof (cases "x = (k, info)")
    case True
    with assms(2,3) show ?thesis by simp
  next
    case False
    with Cons.prems(1) have "(k, info) \<in> set items" by simp
    then have IH: "\<And>rm ts. fst ` set items \<subseteq> fst ` set ts \<Longrightarrow>
        fst (collect_topics can_print c items rm ts) = Some UnicodeEncodeError"
      by (rule Cons.IH)
    have kept: "fst (collect_topics can_print c items rm' ts) = Some UnicodeEncodeError" for rm'
      using sub by (rule IH)
    have removed: "fst (collect_topics can_print c items rm' (AList.map_entry k' f ts)) =
        Some UnicodeEncodeError" for rm' f
      by (rule IH) (simp add: AList.dom_map_entry sub)
    from present obtain v where "map_of ts k' = Some v" by auto
    then show ?thesis unfolding x by (simp add: Let_def kept removed)
  qed
qed

lemma handle_disconnection_unprintable:
  assumes "(k, info) \<in> set (topics s)" and "producer info = c"
    and "\<not> can_print (log_producer_gone (name info))"
  shows "fst (handle_disconnection can_print c s) = Some UnicodeEncodeError \<and>
         map fst (topics (snd (handle_disconnection can_print c s))) = map fst (topics s)"
proof -
  obtain r rm ts where 1: "collect_topics can_print c (topics s) [] (topics s) = (r, rm, ts)"
    by (metis prod_cases3)
  from collect_topics_raises [of k info "topics s" c can_print "topics s" "[]"] assms 1
  have r: "r = Some UnicodeEncodeError" by simp
  from collect_topics_keys [OF 1] have "map fst ts = map fst (topics s)" .
  with 1 r show ?thesis by (simp add: handle_disconnection_def)
qed

lemma utf8_stdout_surrogate:
  "\<not> utf8_stdout (log_producer_gone (SStr lone_surrogate))"
  by (simp add: utf8_stdout_def log_producer_gone_def lone_surrogate_def)

lemma pm_register_envelope:
  "process_message (envelope ''register'' i topic ''producer'') c s =
     register_producer topic (JStr i) c s"
  unfolding envelope_def by (subst pm_register_producer) (simp_all only: envelope_get)

text \<open>
  C6. The cleanup on disconnection is lost on a topic name that stdout cannot encode. The
  envelope that registers socket 1 as producer of the topic whose name is the lone
  surrogate U+D800 passes \<^verbatim>\<open>validate_kom\<close> and creates the topic. When socket 1
  disconnects, the first \<^verbatim>\<open>print\<close> of \<^verbatim>\<open>handle_disconnection\<close> raises
  \<^verbatim>\<open>UnicodeEncodeError\<close> before anything is collected or removed: the server is left as
  it was, with the topic of the lost producer in the registry, where the cleanup in the
  words of the specification leaves no topic.
\<close>

theorem handle_disconnection_unencodable_topic:
  "validate_kom ((=) ''2024-01-01T00:00:00'')
     (envelope ''register'' ''id1'' (JStr lone_surrogate) ''producer'') \<and>
   process_message (envelope ''register'' ''id1'' (JStr lone_surrogate) ''producer'') 1 init_server =
     Inr \<lparr>topics = [(SStr lone_surrogate,
                      \<lparr>name = SStr lone_surrogate, producer = 1, producer_id = JStr ''id1'',
                       subscribers = []\<rparr>)],
          kkw = [(1, msg_created (SStr lone_surrogate))]\<rparr> \<and>
   handle_disconnection utf8_stdout 1
     \<lparr>topics = [(SStr lone_surrogate,
                      \<lparr>name = SStr lone_surrogate, producer = 1, producer_id = JStr ''id1'',
                       subscribers = []\<rparr>)],
          kkw = [(1, msg_created (SStr lone_surrogate))]\<rparr> =
     (Some UnicodeEncodeError,
      \<lparr>topics = [(SStr lone_surrogate,
                      \<lparr>name = SStr lone_surrogate, producer = 1, producer_id = JStr ''id1'',
                       subscribers = []\<rparr>)],
          kkw = [(1, msg_created (SStr lone_surrogate))]\<rparr>) \<and>
   topics (on_disconnect 1
     \<lparr>topics = [(SStr lone_surrogate,
                      \<lparr>name = SStr lone_surrogate, producer = 1, producer_id = JStr ''id1'',
                       subscribers = []\<rparr>)],
          kkw = [(1, msg_created (SStr lone_surrogate))]\<rparr>) = []"
proof (intro conjI)
  show "validate_kom ((=) ''2024-01-01T00:00:00'')
     (envelope ''register'' ''id1'' (JStr lone_surrogate) ''producer'')"
    by (simp add: envelope_def validate_kom_obj required_keys_def)
  have "map_of (topics init_server) (py_key (SStr lone_surrogate)) = None"
    by (simp add: init_server_def)
  from register_producer_absent [OF this, of "JStr ''id1''" 1]
  show "process_message (envelope ''register'' ''id1'' (JStr lone_surrogate) ''producer'') 1 init_server =
     Inr \<lparr>topics = [(SStr lone_surrogate,
                      \<lparr>name = SStr lone_surrogate, producer = 1, producer_id = JStr ''id1'',
                       subscribers = []\<rparr>)],
          kkw = [(1, msg_created (SStr lone_surrogate))]\<rparr>"
    by (simp add: pm_register_envelope init_server_def kkw_put_def)
  show "handle_disconnection utf8_stdout 1
     \<lparr>topics = [(SStr lone_surrogate,
                      \<lparr>name = SStr lone_surrogate, producer = 1, producer_id = JStr ''id1'',
                       subscribers = []\<rparr>)],
          kkw = [(1, msg_created (SStr lone_surrogate))]\<rparr> =
     (Some UnicodeEncodeError,
      \<lparr>topics = [(SStr lone_surrogate,
                      \<lparr>name = SStr lone_surrogate, producer = 1, producer_id = JStr ''id1'',
                       subscribers = []\<rparr>)],
          kkw = [(1, msg_created (SStr lone_surrogate))]\<rparr>)"
    by (simp add: handle_disconnection_def utf8_stdout_surrogate)
  show "topics (on_disconnect 1
     \<lparr>topics = [(SStr lone_surrogate,
                      \<lparr>name = SStr lone_surrogate, producer = 1, producer_id = JStr ''id1'',
                       subscribers = []\<rparr>)],
          kkw = [(1, msg_created (SStr lone_surrogate))]\<rparr>) = []"
    by (simp add: on_disconnect_def)
qed

lemma dict_get_update:
  "dict_get (AList.update k v d) k' = (if k' = k then v else dict_get d k')"
  by (simp add: dict_get_def AList.update_conv')

lemma status_scenario:
  "process_received_messages
     [(1, envelope ''register'' ''id1'' (JStr ''a'') ''producer''),
      (2, envelope ''register'' ''id2'' (JStr ''b'') ''producer''),
      (3, envelope ''status'' ''id3'' (JStr ''logs'') [])] init_server =
   Inr \<lparr>topics =
          [(SStr ''a'', \<lparr>name = SStr ''a'', producer = 1, producer_id = JStr ''id1'',
                         subscribers = []\<rparr>),
           (SStr ''b'', \<lparr>name = SStr ''b'', producer = 2, producer_id = JStr ''id2'',
                         subscribers = []\<rparr>)],
        kkw =
          [(1, Text ''New topic registered: a''),
           (2, Text ''New topic registered: b''),
           (3, Json (JObj
                [(''type'', JStr ''status''), (''id'', JStr ''id3''), (''topic'', JStr ''logs''),
                 (''mode'', JStr []), (''timestamp'', JStr ''2024-01-01T00:00:00''),
                 (''payload'', JArr
                    [JObj [(''topic'', JStr ''a''), (''id'', JStr ''id1'')],
                     JObj [(''topic'', JStr ''b''), (''id'', JStr ''id2'')]])]))]\<rparr>"
proof -
  let ?a = "\<lparr>name = SStr ''a'', producer = 1::nat, producer_id = JStr ''id1'',
              subscribers = []::nat list\<rparr>"
  let ?b = "\<lparr>name = SStr ''b'', producer = 2::nat, producer_id = JStr ''id2'',
              subscribers = []::nat list\<rparr>"
  let ?s1 = "\<lparr>topics = [(SStr ''a'', ?a)], kkw = [(1::nat, Text ''New topic registered: a'')]\<rparr>"
  let ?s2 = "\<lparr>topics = [(SStr ''a'', ?a), (SStr ''b'', ?b)],
              kkw = [(1::nat, Text ''New topic registered: a''),
                     (2, Text ''New topic registered: b'')]\<rparr>"
  have 1: "process_message (envelope ''register'' ''id1'' (JStr ''a'') ''producer'') 1 init_server
      = Inr ?s1"
    unfolding envelope_def
    by (simp add: pm_register_producer envelope_get register_producer_def init_server_def
        kkw_put_def msg_created_def del: process_message.simps)
  have 2: "process_message (envelope ''register'' ''id2'' (JStr ''b'') ''producer'') 2 ?s1
      = Inr ?s2"
    unfolding envelope_def
    by (simp add: pm_register_producer envelope_get register_producer_def
        kkw_put_def msg_created_def del: process_message.simps)
  have 3: "process_message (envelope ''status'' ''id3'' (JStr ''logs'') []) 3 ?s2 =
      Inr (kkw_put 3 (Json (JObj
                [(''type'', JStr ''status''), (''id'', JStr ''id3''), (''topic'', JStr ''logs''),
                 (''mode'', JStr []), (''timestamp'', JStr ''2024-01-01T00:00:00''),
                 (''payload'', JArr
                    [JObj [(''topic'', JStr ''a''), (''id'', JStr ''id1'')],
                     JObj [(''topic'', JStr ''b''), (''id'', JStr ''id2'')]])])) ?s2)"
    unfolding envelope_def
    by (simp add: pm_status envelope_get snapshot_status_def topics_status_def
        del: process_message.simps)
  have "process_received_messages
     [(1, envelope ''register'' ''id1'' (JStr ''a'') ''producer''),
      (2, envelope ''register'' ''id2'' (JStr ''b'') ''producer''),
      (3, envelope ''status'' ''id3'' (JStr ''logs'') [])] init_server =
      Inr (kkw_put 3 (Json (JObj
                [(''type'', JStr ''status''), (''id'', JStr ''id3''), (''topic'', JStr ''logs''),
                 (''mode'', JStr []), (''timestamp'', JStr ''2024-01-01T00:00:00''),
                 (''payload'', JArr
                    [JObj [(''topic'', JStr ''a''), (''id'', JStr ''id1'')],
                     JObj [(''topic'', JStr ''b''), (''id'', JStr ''id2'')]])])) ?s2)"
    by (simp only: process_received_messages.simps 1 2 3 sum.case)
  then show ?thesis
    by (simp add: kkw_put_def del: process_message.simps)
qed

text \<open>
  C8. A status envelope leaves \<^verbatim>\<open>self.topics\<close> alone and puts one item for the requester in
  the outbound queue: the envelope itself, so with its type \<^verbatim>\<open>status\<close>, whose payload is
  replaced by the list of the objects with the topic and the producer id of every entry of
  \<^verbatim>\<open>self.topics\<close>, in the order of the dict, which is the order of registration. With the
  topics a of id1 and b of id2 registered in that order the payload is the list of the
  two objects for a and for b.
\<close>

theorem status_reply:
  "(dict_get d ''type'' = JStr ''status'' \<longrightarrow>
      process_message (JObj d) c s =
        Inr (kkw_put c (Json (JObj (AList.update ''payload'' (JArr (topics_status s)) d))) s) \<and>
      dict_get (AList.update ''payload'' (JArr (topics_status s)) d) ''type'' = JStr ''status'' \<and>
      dict_get (AList.update ''payload'' (JArr (topics_status s)) d) ''payload'' =
        JArr (topics_status s)) \<and>
   topics (kkw_put c m s) = topics s \<and>
   topics_status s =
     map (\<lambda>x. JObj [(''topic'', json_of (name (snd x))), (''id'', producer_id (snd x))])
       (topics s) \<and>
   process_received_messages
     [(1, envelope ''register'' ''id1'' (JStr ''a'') ''producer''),
      (2, envelope ''register'' ''id2'' (JStr ''b'') ''producer''),
      (3, envelope ''status'' ''id3'' (JStr ''logs'') [])] init_server =
   Inr \<lparr>topics =
          [(SStr ''a'', \<lparr>name = SStr ''a'', producer = 1, producer_id = JStr ''id1'',
                         subscribers = []\<rparr>),
           (SStr ''b'', \<lparr>name = SStr ''b'', producer = 2, producer_id = JStr ''id2'',
                         subscribers = []\<rparr>)],
        kkw =
          [(1, Text ''New topic registered: a''),
           (2, Text ''New topic registered: b''),
           (3, Json (JObj
                [(''type'', JStr ''status''), (''id'', JStr ''id3''), (''topic'', JStr ''logs''),
                 (''mode'', JStr []), (''timestamp'', JStr ''2024-01-01T00:00:00''),
                 (''payload'', JArr
                    [JObj [(''topic'', JStr ''a''), (''id'', JStr ''id1'')],
                     JObj [(''topic'', JStr ''b''), (''id'', JStr ''id2'')]])]))]\<rparr>"
proof (intro conjI impI)
  assume st: "dict_get d ''type'' = JStr ''status''"
  show "process_message (JObj d) c s =
        Inr (kkw_put c (Json (JObj (AList.update ''payload'' (JArr (topics_status s)) d))) s)"
    unfolding pm_status [OF st] by (simp add: snapshot_status_def)
  show "dict_get (AList.update ''payload'' (JArr (topics_status s)) d) ''type'' = JStr ''status''"
    using st by (simp add: dict_get_update)
  show "dict_get (AList.update ''payload'' (JArr (topics_status s)) d) ''payload'' =
        JArr (topics_status s)"
    by (simp add: dict_get_update)
next
  show "topics (kkw_put c m s) = topics s" by simp
  show "topics_status s =
     map (\<lambda>x. JObj [(''topic'', json_of (name (snd x))), (''id'', producer_id (snd x))])
       (topics s)"
    by (simp add: topics_status_def case_prod_unfold)
  show "process_received_messages
     [(1, envelope ''register'' ''id1'' (JStr ''a'') ''producer''),
      (2, envelope ''register'' ''id2'' (JStr ''b'') ''producer''),
      (3, envelope ''status'' ''id3'' (JStr ''logs'') [])] init_server =
   Inr \<lparr>topics =
          [(SStr ''a'', \<lparr>name = SStr ''a'', producer = 1, producer_id = JStr ''id1'',
                         subscribers = []\<rparr>),
           (SStr ''b'', \<lparr>name = SStr ''b'', producer = 2, producer_id = JStr ''id2'',
                         subscribers = []\<rparr>)],
        kkw =
          [(1, Text ''New topic registered: a''),
           (2, Text ''New topic registered: b''),
           (3, Json (JObj
                [(''type'', JStr ''status''), (''id'', JStr ''id3''), (''topic'', JStr ''logs''),
                 (''mode'', JStr []), (''timestamp'', JStr ''2024-01-01T00:00:00''),
                 (''payload'', JArr
                    [JObj [(''topic'', JStr ''a''), (''id'', JStr ''id1'')],
                     JObj [(''topic'', JStr ''b''), (''id'', JStr ''id2'')]])]))]\<rparr>"
    by (rule status_scenario)
qed

theorem status_reply_witness:
  "process_message (envelope ''status'' ''id3'' (JStr ''logs'') []) 3 init_server =
     Inr \<lparr>topics = [],
          kkw = [(3, Json (JObj
                [(''type'', JStr ''status''), (''id'', JStr ''id3''), (''topic'', JStr ''logs''),
                 (''mode'', JStr []), (''timestamp'', JStr ''2024-01-01T00:00:00''),
                 (''payload'', JArr [])]))]\<rparr>"
proof -
  let ?d = "[(''type'', JStr ''status''), (''id'', JStr ''id3''), (''topic'', JStr ''logs''),
             (''mode'', JStr []), (''timestamp'', JStr ''2024-01-01T00:00:00''),
             (''payload'', JObj [])]"
  have h: "dict_get ?d ''type'' = JStr ''status''" by (simp add: envelope_get)
  from status_reply [of ?d 3 init_server, THEN conjunct1, rule_format, OF h, THEN conjunct1]
  show ?thesis
    unfolding envelope_def
    by (simp add: topics_status_def init_server_def kkw_put_def del: process_message.simps)
qed

lemma conflict_texts:
  "msg_name_taken t \<in> range Text" "msg_already_producer t \<in> range Text"
  "msg_already_subscribed t \<in> range Text" "msg_not_producer t \<in> range Text"
  "msg_not_subscriber t \<in> range Text" "msg_no_such_topic t \<in> range Text"
  by (simp_all add: msg_name_taken_def msg_already_producer_def msg_already_subscribed_def
      msg_not_producer_def msg_not_subscriber_def msg_no_such_topic_def)

text \<open>
  C9. Every conflict is answered by putting one text for the sender in the outbound queue
  and by nothing else: registering a producer for a present name (already-producer for its
  producer, name-taken for others), registering a subscriber twice, withdrawing a
  subscription that is not there, withdrawing or publishing on a topic of another producer,
  and any subscriber registration, withdrawal or message on an absent name.
\<close>

theorem conflict_replies:
  "(\<forall>info. map_of (topics s) (py_key t) = Some info \<longrightarrow>
      register_producer (json_of t) i c s =
        Inr (kkw_put c (if producer info = c then msg_already_producer t else msg_name_taken t) s) \<and>
      (c \<in> set (subscribers info) \<longrightarrow>
         register_subscriber (json_of t) c s = Inr (kkw_put c (msg_already_subscribed t) s)) \<and>
      (c \<notin> set (subscribers info) \<longrightarrow>
         withdraw_subscriber (json_of t) c s = Inr (kkw_put c (msg_not_subscriber t) s)) \<and>
      (producer info \<noteq> c \<longrightarrow>
         withdraw_producer (json_of t) c s = Inr (kkw_put c (msg_not_producer t) s) \<and>
         publish (json_of t) p c s = Inr (kkw_put c (msg_not_producer t) s))) \<and>
   (map_of (topics s) (py_key t) = None \<longrightarrow>
      register_subscriber (json_of t) c s = Inr (kkw_put c (msg_no_such_topic t) s) \<and>
      withdraw_subscriber (json_of t) c s = Inr (kkw_put c (msg_no_such_topic t) s) \<and>
      withdraw_producer (json_of t) c s = Inr (kkw_put c (msg_no_such_topic t) s) \<and>
      publish (json_of t) p c s = Inr (kkw_put c (msg_no_such_topic t) s)) \<and>
   topics (kkw_put c m s) = topics s \<and>
   kkw (kkw_put c m s) = kkw s @ [(c, m)] \<and>
   {msg_name_taken t, msg_already_producer t, msg_already_subscribed t, msg_not_producer t,
    msg_not_subscriber t, msg_no_such_topic t} \<subseteq> range Text"
proof (intro conjI allI impI)
  show "{msg_name_taken t, msg_already_producer t, msg_already_subscribed t, msg_not_producer t,
    msg_not_subscriber t, msg_no_such_topic t} \<subseteq> range Text"
    using conflict_texts [of t] by blast
qed (simp_all add: register_producer_present register_subscriber_already withdraw_subscriber_not
      withdraw_producer_not publish_not register_subscriber_absent withdraw_subscriber_absent
      withdraw_producer_absent publish_absent)

theorem conflict_replies_witness:
  "register_producer (JStr ''temp'') (JStr ''id5'') 5
     \<lparr>topics = [(SStr ''temp'', \<lparr>name = SStr ''temp'', producer = 1,
                   producer_id = JStr ''id1'', subscribers = [2, 3]\<rparr>)], kkw = []\<rparr> =
   Inr \<lparr>topics = [(SStr ''temp'', \<lparr>name = SStr ''temp'', producer = 1,
                   producer_id = JStr ''id1'', subscribers = [2, 3]\<rparr>)],
        kkw = [(5, Text ''Topic temp already exists.'')]\<rparr> \<and>
   withdraw_producer (JStr ''other'') 1
     \<lparr>topics = [(SStr ''temp'', \<lparr>name = SStr ''temp'', producer = 1,
                   producer_id = JStr ''id1'', subscribers = [2, 3]\<rparr>)], kkw = []\<rparr> =
   Inr \<lparr>topics = [(SStr ''temp'', \<lparr>name = SStr ''temp'', producer = 1,
                   producer_id = JStr ''id1'', subscribers = [2, 3]\<rparr>)],
        kkw = [(1, msg_no_such_topic (SStr ''other''))]\<rparr>"
proof -
  let ?info = "\<lparr>name = SStr ''temp'', producer = 1::nat, producer_id = JStr ''id1'',
                 subscribers = [2, 3::nat]\<rparr>"
  let ?s = "\<lparr>topics = [(SStr ''temp'', ?info)], kkw = []\<rparr>"
  have h: "map_of (topics ?s) (py_key (SStr ''temp'')) = Some ?info" by simp
  have n: "map_of (topics ?s) (py_key (SStr ''other'')) = None" by simp
  from conflict_replies [of ?s "SStr ''temp''" "JStr ''id5''" 5] h
  have a: "register_producer (json_of (SStr ''temp'')) (JStr ''id5'') 5 ?s =
        Inr (kkw_put 5 (if producer ?info = 5 then msg_already_producer (SStr ''temp'')
                        else msg_name_taken (SStr ''temp'')) ?s)"
    by blast
  from conflict_replies [of ?s "SStr ''other''" JNull 1] n
  have b: "withdraw_producer (json_of (SStr ''other'')) 1 ?s =
        Inr (kkw_put 1 (msg_no_such_topic (SStr ''other'')) ?s)"
    by blast
  from a b show ?thesis by (simp add: kkw_put_def msg_name_taken_def)
qed

lemma process_message_hashable:
  assumes "as_hashable (dict_get d ''topic'') = Some t"
  shows "\<exists>s'. process_message (JObj d) c s = Inr s'"
proof -
  have "\<exists>s'. register_producer (dict_get d ''topic'') (dict_get d ''id'') c s = Inr s'"
    "\<exists>s'. register_subscriber (dict_get d ''topic'') c s = Inr s'"
    "\<exists>s'. withdraw_subscriber (dict_get d ''topic'') c s = Inr s'"
    "\<exists>s'. withdraw_producer (dict_get d ''topic'') c s = Inr s'"
    "\<exists>s'. publish (dict_get d ''topic'') (dict_get d ''payload'') c s = Inr s'"
    using hashable_returns [OF assms] by blast+
  then show ?thesis
    by (simp only: process_message.simps Let_def if_chain_P
        [where P = "\<lambda>r. \<exists>s'. r = Inr s'"] sum.inject simp_thms)
qed

text \<open>
  C10, as the code has it. \<^verbatim>\<open>process_message\<close> returns on every dict whose topic is absent,
  \<^verbatim>\<open>None\<close>, a bool, an int or a string, whatever else is missing, and on every dict that
  is routed to the status reply or to the unknown-message-type reply.
\<close>

theorem process_message_completes:
  "(as_hashable (dict_get d ''topic'') \<noteq> None \<longrightarrow>
      (\<exists>s'. process_message (JObj d) c s = Inr s')) \<and>
   (map_of d ''topic'' = None \<longrightarrow> as_hashable (dict_get d ''topic'') \<noteq> None) \<and>
   (dict_get d ''type'' = JStr ''status'' \<or>
    \<not> routed (dict_get d ''type'') (dict_get d ''mode'') \<longrightarrow>
      (\<exists>s'. process_message (JObj d) c s = Inr s'))"
proof (intro conjI impI)
  assume "as_hashable (dict_get d ''topic'') \<noteq> None"
  then obtain t where "as_hashable (dict_get d ''topic'') = Some t" by blast
  then show "\<exists>s'. process_message (JObj d) c s = Inr s'" by (rule process_message_hashable)
next
  assume "map_of d ''topic'' = None"
  then show "as_hashable (dict_get d ''topic'') \<noteq> None" by (simp add: dict_get_def)
next
  assume "dict_get d ''type'' = JStr ''status'' \<or>
    \<not> routed (dict_get d ''type'') (dict_get d ''mode'')"
  then show "\<exists>s'. process_message (JObj d) c s = Inr s'"
  proof
    assume "dict_get d ''type'' = JStr ''status''"
    from pm_status [OF this] show ?thesis by blast
  next
    assume "\<not> routed (dict_get d ''type'') (dict_get d ''mode'')"
    from pm_unknown [OF this] show ?thesis by blast
  qed
qed

theorem process_message_completes_witness:
  "\<exists>s'. process_message (JObj [(''type'', JStr ''register''), (''mode'', JStr ''producer'')]) 1
          init_server = Inr s'"
proof -
  have "map_of [(''type'', JStr ''register''), (''mode'', JStr ''producer'')] ''topic'' = None"
    by simp
  with process_message_completes
    [of "[(''type'', JStr ''register''), (''mode'', JStr ''producer'')]" 1 init_server]
  show ?thesis by blast
qed

text \<open>
  C10 as stated fails: an envelope that passes validation and whose topic is a list makes
  \<^verbatim>\<open>topic in self.topics\<close> raise \<^verbatim>\<open>TypeError\<close>, which nothing in \<^verbatim>\<open>process_message\<close>
  catches.
\<close>

theorem process_message_unhashable_counterexample:
  "validate_kom ((=) ''2024-01-01T00:00:00'')
     (envelope ''register'' ''id1'' (JArr []) ''producer'') \<and>
   process_message (envelope ''register'' ''id1'' (JArr []) ''producer'') 1 init_server =
     Inl TypeError"
proof -
  have v: "validate_kom ((=) ''2024-01-01T00:00:00'')
     (envelope ''register'' ''id1'' (JArr []) ''producer'')"
    unfolding envelope_def by (simp add: validate_kom_obj required_keys_def)
  have "process_message (envelope ''register'' ''id1'' (JArr []) ''producer'') 1 init_server =
      register_producer (JArr []) (JStr ''id1'') 1 init_server"
    unfolding envelope_def
    by (simp add: pm_register_producer envelope_get del: process_message.simps)
  also have "\<dots> = Inl TypeError" by (simp add: register_producer_def)
  finally show ?thesis using v by simp
qed

end
